theory Spec2Isabelle
  imports Complex_Main
begin

section \<open>Geodesic bounding-box manifolds (lib/geovista/geodesic.py)\<close>

text \<open>
  The three operations of \<^verbatim>\<open>geodesic.py\<close> are embedded as HOL functions: \<^verbatim>\<open>geodesic\<close>,
  \<^verbatim>\<open>geodesic_by_idx\<close> and \<^verbatim>\<open>bbox\<close>. Coordinates are real numbers (NaN and infinities are
  not represented). Every exception the Python can raise is a value \<open>Inl e\<close> of the result.
\<close>

subsection \<open>Errors\<close>

text \<open>
  The three validation failures of \<^verbatim>\<open>bbox\<close> are all \<^verbatim>\<open>ValueError\<close> in the source and differ by
  their message; each constructor carries the counts that the message names.
\<close>

datatype error =
    ShapeMismatch nat nat
  | InsufficientCorners nat
  | AmbiguousCorners nat
  | TypeError
  | IndexError
  | UnpackError
  | BroadcastError
  | NegativeDimensions
  | AssertionError
  | UninitialisedRead
  | GeodError

definition rbind :: "error + 'a \<Rightarrow> ('a \<Rightarrow> error + 'b) \<Rightarrow> error + 'b" where
  "rbind m f = (case m of Inl e \<Rightarrow> Inl e | Inr x \<Rightarrow> f x)"

subsection \<open>Python and NumPy primitives\<close>

definition get :: "'a list \<Rightarrow> int \<Rightarrow> error + 'a" where
  \<comment> \<open>\<^verbatim>\<open>xs[i]\<close>: a negative index counts from the end, out of range raises.\<close>
  "get xs i =
     (if 0 \<le> i \<and> i < int (length xs) then Inr (xs ! nat i)
      else if i < 0 \<and> - int (length xs) \<le> i then Inr (xs ! nat (int (length xs) + i))
      else Inl IndexError)"

definition valid_idx :: "'a list \<Rightarrow> int \<Rightarrow> bool" where
  "valid_idx xs i \<longleftrightarrow> - int (length xs) \<le> i \<and> i < int (length xs)"

definition py_nth :: "'a list \<Rightarrow> int \<Rightarrow> 'a" where
  "py_nth xs i = xs ! nat (if i < 0 then int (length xs) + i else i)"

definition isclose :: "real \<Rightarrow> real \<Rightarrow> bool" where
  \<comment> \<open>\<^verbatim>\<open>np.isclose(a, b)\<close> with its defaults \<^verbatim>\<open>rtol=1e-05, atol=1e-08\<close>.\<close>
  "isclose a b \<longleftrightarrow> \<bar>a - b\<bar> \<le> 1 / 10 ^ 8 + (1 / 10 ^ 5) * \<bar>b\<bar>"

text \<open>A NumPy value of \<^verbatim>\<open>bbox\<close>: a 1-D array, or the scalar that indexing an array gives.\<close>

datatype ndarr = Arr "real list" | Scal real

fun py_len :: "ndarr \<Rightarrow> error + nat" where
  "py_len (Arr xs) = Inr (length xs)"
| "py_len (Scal x) = Inl TypeError"

fun py_items :: "ndarr \<Rightarrow> real list" where
  "py_items (Arr xs) = xs"
| "py_items (Scal x) = []"

definition arange :: "int \<Rightarrow> int list" where
  \<comment> \<open>\<^verbatim>\<open>np.arange(n)\<close>: empty when \<^verbatim>\<open>n <= 0\<close>.\<close>
  "arange n = [0..n - 1]"

definition slice_to :: "int \<Rightarrow> 'a list \<Rightarrow> 'a list" where
  \<comment> \<open>\<^verbatim>\<open>xs[:c]\<close>\<close>
  "slice_to c xs = (if 0 \<le> c then take (nat c) xs else take (nat (int (length xs) + c)) xs)"

definition slice_from1 :: "'a list \<Rightarrow> 'a list" where
  \<comment> \<open>\<^verbatim>\<open>xs[1:]\<close>\<close>
  "slice_from1 xs = drop 1 xs"

subsection \<open>The geodesic reference\<close>

text \<open>
  \<^verbatim>\<open>pyproj.Geod\<close> is an external library; only its method \<^verbatim>\<open>npts\<close> is called. A reference is
  therefore any function with the arguments of that call (\<^verbatim>\<open>lon1, lat1, lon2, lat2, npts,
  radians, initial_idx, terminus_idx\<close>) that returns a list of (longitude, latitude) pairs or fails.
\<close>

type_synonym npts_fn =
  "real \<Rightarrow> real \<Rightarrow> real \<Rightarrow> real \<Rightarrow> int \<Rightarrow> bool \<Rightarrow> int \<Rightarrow> int \<Rightarrow> error + (real \<times> real) list"

datatype geod = Geod (geod_npts: npts_fn)

text \<open>
  The source's comment on \<^verbatim>\<open>MANIFOLD_NPTS\<close> reads "number of equally spaced geodesic points
  between/including endpoint/s", which is the count that \<^verbatim>\<open>pyproj.Geod.npts\<close> documents: the
  call returns \<^verbatim>\<open>npts\<close> points in all, whatever the two index arguments are. \<open>npts_exact\<close>
  says this of a reference; it is the one fact about the external library that the properties
  of the lengths and of the grid rest on.
\<close>

definition npts_exact :: "geod \<Rightarrow> bool" where
  "npts_exact g \<longleftrightarrow>
     (\<forall>lon1 lat1 lon2 lat2 n radians initial_idx terminus_idx ps.
        geod_npts g lon1 lat1 lon2 lat2 n radians initial_idx terminus_idx = Inr ps
          \<longrightarrow> length ps = nat n)"

text \<open>The output mesh: a point array and the rows of the face array.\<close>

record 'p polydata =
  points :: "'p list"
  faces :: "int list list"

text \<open>
  The external collaborators of the module: the constructor \<^verbatim>\<open>pyproj.Geod(ellps=...)\<close>, the
  conversion of one geodetic point to Cartesian coordinates at a radius, and
  \<^verbatim>\<open>pyvista.PolyData.triangulate\<close>.
\<close>

record 'p ext =
  pyproj_Geod :: "string \<Rightarrow> error + geod"
  lonlat_to_xyz :: "real \<Rightarrow> real \<Rightarrow> real \<Rightarrow> 'p"
  pv_triangulate :: "'p polydata \<Rightarrow> 'p polydata"

definition MANIFOLD_ELLIPSE :: string where
  "MANIFOLD_ELLIPSE = ''WGS84''"

definition MANIFOLD_NPTS :: int where
  "MANIFOLD_NPTS = 64"

definition MANIFOLD_C :: int where
  "MANIFOLD_C = 128"

subsection \<open>Helpers of \<^verbatim>\<open>geovista.common\<close>\<close>

definition wrap1 :: "real \<Rightarrow> real" where
  \<comment> \<open>Modelled from the spec: \<^verbatim>\<open>wrap\<close> of \<^verbatim>\<open>geovista/common.py\<close> is missing; the spec says it
      maps a longitude into the canonical half-open range [-180, 180), 185 going to -175.\<close>
  "wrap1 x = x - 360 * of_int \<lfloor>(x + 180) / 360\<rfloor>"

definition wrap :: "real list \<Rightarrow> real list" where
  \<comment> \<open>Modelled from the spec: \<^verbatim>\<open>wrap\<close> of \<^verbatim>\<open>geovista/common.py\<close> is missing; it normalises
      every longitude of the sequence.\<close>
  "wrap xs = map wrap1 xs"

definition to_xyz :: "'p ext \<Rightarrow> real list \<Rightarrow> real list \<Rightarrow> real \<Rightarrow> 'p list" where
  \<comment> \<open>Modelled from the spec: \<^verbatim>\<open>to_xyz\<close> of \<^verbatim>\<open>geovista/common.py\<close> is missing; the spec says it
      converts the geodetic points of the vertex buffer to Cartesian coordinates at the radius.\<close>
  "to_xyz E lons lats radius = map (\<lambda>(lon, lat). lonlat_to_xyz E lon lat radius) (zip lons lats)"

subsection \<open>\<^verbatim>\<open>geodesic\<close> and \<^verbatim>\<open>geodesic_by_idx\<close>\<close>

definition default_geod :: "'p ext \<Rightarrow> geod option \<Rightarrow> error + geod" where
  \<comment> \<open>\<^verbatim>\<open>if geod is None: geod = pyproj.Geod(ellps=MANIFOLD_ELLIPSE)\<close>\<close>
  "default_geod E geod = (case geod of None \<Rightarrow> pyproj_Geod E MANIFOLD_ELLIPSE | Some g \<Rightarrow> Inr g)"

definition unzip2 :: "(real \<times> real) list \<Rightarrow> error + (real list \<times> real list)" where
  \<comment> \<open>\<^verbatim>\<open>glons, glats = zip(*glonlats)\<close>: an empty list gives nothing to unpack.\<close>
  "unzip2 ps = (if ps = [] then Inl UnpackError else Inr (map fst ps, map snd ps))"

definition geodesic ::
  "'p ext \<Rightarrow> real \<Rightarrow> real \<Rightarrow> real \<Rightarrow> real \<Rightarrow> int \<Rightarrow> bool \<Rightarrow> bool \<Rightarrow> bool \<Rightarrow> geod option
     \<Rightarrow> error + (real list \<times> real list)" where
  "geodesic E start_lon start_lat end_lon end_lat n radians include_start include_end geod =
     rbind (default_geod E geod) (\<lambda>g.
       let initial_idx = (if include_start then 0 else 1);
           terminus_idx = (if include_end then 0 else 1)
       in rbind (geod_npts g start_lon start_lat end_lon end_lat n radians initial_idx terminus_idx)
            (\<lambda>glonlats.
               rbind (unzip2 glonlats) (\<lambda>(glons, glats). Inr (wrap glons, glats))))"

definition geodesic_by_idx ::
  "'p ext \<Rightarrow> real list \<Rightarrow> real list \<Rightarrow> int \<Rightarrow> int \<Rightarrow> int \<Rightarrow> bool \<Rightarrow> bool \<Rightarrow> bool \<Rightarrow> geod option
     \<Rightarrow> error + (real list \<times> real list)" where
  "geodesic_by_idx E longitudes latitudes start_idx end_idx n radians include_start include_end geod =
     rbind (default_geod E geod) (\<lambda>g.
     rbind (get longitudes start_idx) (\<lambda>start_lon.
     rbind (get latitudes start_idx) (\<lambda>start_lat.
     rbind (get longitudes end_idx) (\<lambda>end_lon.
     rbind (get latitudes end_idx) (\<lambda>end_lat.
       geodesic E start_lon start_lat end_lon end_lat n radians include_start include_end
         (Some g))))))"

subsection \<open>\<^verbatim>\<open>bbox\<close>: validation and the closed-ring step\<close>

definition validate :: "real list \<Rightarrow> real list \<Rightarrow> error + unit" where
  "validate longitudes latitudes =
     (let n_lons = length longitudes; n_lats = length latitudes
      in if n_lons \<noteq> n_lats then Inl (ShapeMismatch n_lons n_lats)
         else if n_lons < 4 then Inl (InsufficientCorners n_lons)
         else if n_lons > 5 then Inl (AmbiguousCorners n_lons)
         else Inr ())"

definition ensure_open :: "real list \<Rightarrow> real list \<Rightarrow> error + (ndarr \<times> ndarr)" where
  \<comment> \<open>Lines 153-155: \<^verbatim>\<open>if np.isclose(lons[0], lons[-1]) and np.isclose(lats[0], lats[-1]):
      lons, lats = lons[-1], lats[-1]\<close>\<close>
  "ensure_open lons lats =
     rbind (get lons 0) (\<lambda>lon0. rbind (get lons (- 1)) (\<lambda>lonN.
       if isclose lon0 lonN
       then rbind (get lats 0) (\<lambda>lat0. rbind (get lats (- 1)) (\<lambda>latN.
              if isclose lat0 latN then Inr (Scal lonN, Scal latN)
              else Inr (Arr lons, Arr lats)))
       else Inr (Arr lons, Arr lats)))"

subsection \<open>\<^verbatim>\<open>bbox\<close>: the index grid and the vertex buffer\<close>

text \<open>
  The local state of one \<^verbatim>\<open>bbox\<close> call. A cell of \<^verbatim>\<open>idx_map\<close> is \<open>None\<close> until it is
  assigned (\<^verbatim>\<open>np.empty\<close> leaves it uninitialised). The field \<open>writes\<close> is a ghost variable: the
  list, in order, of the (row, column) cells that assignments to \<^verbatim>\<open>idx_map\<close> have written.
\<close>

record bbox_state =
  idx_map :: "int option list list"
  bbox_lons :: "real list"
  bbox_lats :: "real list"
  bbox_count :: nat
  writes :: "(nat \<times> nat) list"

definition bbox_extend :: "bbox_state \<Rightarrow> ndarr \<Rightarrow> ndarr \<Rightarrow> error + (bbox_state \<times> nat)" where
  "bbox_extend st lons lats =
     rbind (py_len lons) (\<lambda>n_lons. rbind (py_len lats) (\<lambda>n_lats.
       if n_lons \<noteq> n_lats then Inl AssertionError
       else Inr (st\<lparr>bbox_lons := bbox_lons st @ py_items lons,
                    bbox_lats := bbox_lats st @ py_items lats\<rparr>,
                 bbox_count st + n_lons)))"

definition norm_index :: "nat \<Rightarrow> int \<Rightarrow> error + nat" where
  \<comment> \<open>An integer index into an axis of length \<open>n\<close>.\<close>
  "norm_index n i =
     (if 0 \<le> i \<and> i < int n then Inr (nat i)
      else if i < 0 \<and> - int n \<le> i then Inr (nat (int n + i))
      else Inl IndexError)"

definition set_row :: "int option list list \<Rightarrow> nat \<Rightarrow> int list \<Rightarrow> int option list list" where
  "set_row m r vals = m[r := map Some vals]"

definition set_column :: "int option list list \<Rightarrow> nat \<Rightarrow> int list \<Rightarrow> int option list list" where
  "set_column m k vals = map (\<lambda>(row, v). row[k := Some v]) (zip m vals)"

definition assign ::
  "nat \<Rightarrow> int option list list \<Rightarrow> int option \<Rightarrow> int option \<Rightarrow> int list
     \<Rightarrow> error + (int option list list \<times> (nat \<times> nat) list)" where
  \<comment> \<open>\<^verbatim>\<open>idx_map[row, column] = vals\<close> on an array of shape \<open>(n, n)\<close>, where a missing
      \<open>row\<close> or \<open>column\<close> is the full slice. Returns the array and the cells written.\<close>
  "assign n m row column vals =
     (case (row, column) of
        (Some r, None) \<Rightarrow>
          rbind (norm_index n r) (\<lambda>r'.
            if length vals \<noteq> n \<and> length vals \<noteq> 1 then Inl BroadcastError
            else let vs = (if length vals = n then vals else replicate n (hd vals))
                 in Inr (set_row m r' vs, map (\<lambda>k. (r', k)) [0..<n]))
      | (None, Some k) \<Rightarrow>
          rbind (norm_index n k) (\<lambda>k'.
            if length vals \<noteq> n \<and> length vals \<noteq> 1 then Inl BroadcastError
            else let vs = (if length vals = n then vals else replicate n (hd vals))
                 in Inr (set_column m k' vs, map (\<lambda>r. (r, k')) [0..<n]))
      | (Some r, Some k) \<Rightarrow> Inl BroadcastError
      | (None, None) \<Rightarrow> Inl AssertionError)"

definition bbox_update ::
  "'p ext \<Rightarrow> geod \<Rightarrow> int \<Rightarrow> nat \<Rightarrow> bbox_state \<Rightarrow> int \<Rightarrow> int \<Rightarrow> int option \<Rightarrow> int option
     \<Rightarrow> error + (bbox_state \<times> nat)" where
  \<comment> \<open>\<open>n\<close> is the closure variable \<^verbatim>\<open>npts\<close>, \<open>side\<close> the side \<^verbatim>\<open>c + 1\<close> of \<^verbatim>\<open>idx_map\<close>.\<close>
  "bbox_update E g n side st idx1 idx2 row column =
     (if row = None \<and> column = None then Inl AssertionError
      else
        rbind (geodesic_by_idx E (bbox_lons st) (bbox_lats st) idx1 idx2 n False False False (Some g))
          (\<lambda>(glons, glats).
        rbind (assign side (idx_map st) row column
                 ([idx1] @ map (\<lambda>k. k + int (bbox_count st)) (arange n) @ [idx2]))
          (\<lambda>(m, cells).
        bbox_extend (st\<lparr>idx_map := m, writes := writes st @ cells\<rparr>) (Arr glons) (Arr glats))))"

definition cell_val :: "int option \<Rightarrow> error + int" where
  \<comment> \<open>Reading a cell. An uninitialised cell holds an arbitrary integer in NumPy; the model
      reports the read, so that a successful run never depends on such a value.\<close>
  "cell_val v = (case v of None \<Rightarrow> Inl UninitialisedRead | Some i \<Rightarrow> Inr i)"

fun inner_rows ::
  "'p ext \<Rightarrow> geod \<Rightarrow> int \<Rightarrow> nat \<Rightarrow> int list \<Rightarrow> bbox_state \<Rightarrow> error + bbox_state" where
  "inner_rows E g n side [] st = Inr st"
| "inner_rows E g n side (row_idx # rest) st =
     (case rbind (get (idx_map st) row_idx) (\<lambda>row.
             rbind (rbind (get row 0) cell_val) (\<lambda>a.
             rbind (rbind (get row (- 1)) cell_val) (\<lambda>b.
               bbox_update E g n side st a b (Some row_idx) None)))
      of Inl e \<Rightarrow> Inl e
       | Inr (st', cnt) \<Rightarrow> inner_rows E g n side rest (st'\<lparr>bbox_count := cnt\<rparr>))"

definition step ::
  "error + bbox_state \<Rightarrow> (bbox_state \<Rightarrow> error + (bbox_state \<times> nat)) \<Rightarrow> error + bbox_state" where
  \<comment> \<open>\<^verbatim>\<open>bbox_count = f(...)\<close>\<close>
  "step m f = rbind m (\<lambda>st. rbind (f st) (\<lambda>(st', cnt). Inr (st'\<lparr>bbox_count := cnt\<rparr>)))"

definition bbox_fill ::
  "'p ext \<Rightarrow> real list \<Rightarrow> real list \<Rightarrow> string \<Rightarrow> int \<Rightarrow> error + bbox_state" where
  \<comment> \<open>Lines 122-199: everything up to the filled \<^verbatim>\<open>idx_map\<close> and vertex buffer.\<close>
  "bbox_fill E longitudes latitudes ellps c =
     rbind (validate longitudes latitudes) (\<lambda>_.
     rbind (ensure_open longitudes latitudes) (\<lambda>(lons, lats).
       if c + 1 < 0 then Inl NegativeDimensions
       else
         let side = nat (c + 1);
             st0 = \<lparr>idx_map = replicate side (replicate side None), bbox_lons = [], bbox_lats = [],
                    bbox_count = 0, writes = []\<rparr>
         in rbind (pyproj_Geod E ellps) (\<lambda>g.
              let n = c - 1;
                  s1 = step (Inr st0) (\<lambda>st. bbox_extend st lons lats);
                  s2 = step s1 (\<lambda>st. bbox_update E g n side st 0 1 (Some 0) None);
                  s3 = step s2 (\<lambda>st. bbox_update E g n side st 3 2 (Some (- 1)) None);
                  s4 = step s3 (\<lambda>st. bbox_update E g n side st 0 3 None (Some 0));
                  s5 = step s4 (\<lambda>st. bbox_update E g n side st 1 2 None (Some (- 1)))
              in rbind s5 (inner_rows E g n side [1..c - 1]))))"

subsection \<open>\<^verbatim>\<open>bbox\<close>: faces and mesh\<close>

definition ravel :: "int option list list \<Rightarrow> error + int list" where
  "ravel m = (if list_all (\<lambda>v. v \<noteq> None) (concat m) then Inr (map the (concat m))
              else Inl UninitialisedRead)"

definition make_faces :: "int \<Rightarrow> int option list list \<Rightarrow> error + int list list" where
  \<comment> \<open>Lines 201-207. \<^verbatim>\<open>np.hstack\<close> needs the five columns to have the same number of rows.\<close>
  "make_faces c m =
     (let n_faces = c * c in
      rbind (ravel (map (slice_to c) (slice_to c m))) (\<lambda>faces_c1.
      rbind (ravel (map slice_from1 (slice_to c m))) (\<lambda>faces_c2.
      rbind (ravel (map slice_from1 (slice_from1 m))) (\<lambda>faces_c3.
      rbind (ravel (map (slice_to c) (slice_from1 m))) (\<lambda>faces_c4.
        if int (length faces_c1) = n_faces \<and> int (length faces_c2) = n_faces
           \<and> int (length faces_c3) = n_faces \<and> int (length faces_c4) = n_faces
        then Inr (map (\<lambda>k. [4, faces_c1 ! k, faces_c2 ! k, faces_c3 ! k, faces_c4 ! k])
                    [0..<nat n_faces])
        else Inl BroadcastError)))))"

definition bbox ::
  "'p ext \<Rightarrow> real list \<Rightarrow> real list \<Rightarrow> string \<Rightarrow> real \<Rightarrow> int \<Rightarrow> bool \<Rightarrow> error + 'p polydata" where
  "bbox E longitudes latitudes ellps radius c triangulate =
     rbind (bbox_fill E longitudes latitudes ellps c) (\<lambda>st.
     rbind (make_faces c (idx_map st)) (\<lambda>fs.
       let xyz = to_xyz E (bbox_lons st) (bbox_lats st) radius;
           pdata = \<lparr>points = xyz, faces = fs\<rparr>
       in Inr (if triangulate then pv_triangulate E pdata else pdata)))"

subsection \<open>A planar reference for concrete runs\<close>

definition flat_npts :: npts_fn where
  \<comment> \<open>Equally spaced points on the straight segment of the longitude/latitude plane. The count
      and the two index arguments follow the documentation of \<^verbatim>\<open>pyproj.Geod.npts\<close>: \<open>n\<close> points
      are returned, the \<open>i\<close>-th at the fraction \<open>(i + initial_idx) / (n + initial_idx +
      terminus_idx - 1)\<close> of the way; asking for no point is an error.\<close>
  "flat_npts lon1 lat1 lon2 lat2 n radians initial_idx terminus_idx =
     (let d = n + initial_idx + terminus_idx - 1
      in if n \<le> 0 \<or> d \<le> 0 then Inl GeodError
         else Inr (map (\<lambda>i. (lon1 + (lon2 - lon1) * of_int (i + initial_idx) / of_int d,
                              lat1 + (lat2 - lat1) * of_int (i + initial_idx) / of_int d))
                     [0..n - 1]))"

definition flat_ext :: "(real \<times> real \<times> real) ext" where
  "flat_ext = \<lparr>pyproj_Geod = (\<lambda>ellps. Inr (Geod flat_npts)),
               lonlat_to_xyz = (\<lambda>lon lat radius. (lon, lat, radius)),
               pv_triangulate = (\<lambda>pdata. pdata)\<rparr>"

subsection \<open>Notions used to state the properties of the grid\<close>

text \<open>
  The definitions below are not part of the program; they name what the properties of
  \<^verbatim>\<open>bbox\<close> speak about. \<open>shape n m\<close>: \<open>m\<close> is an \<open>n \<times> n\<close> array. \<open>grid_spec b C r k\<close>: the
  vertex index that cell \<open>(r, k)\<close> of the \<open>(C + 1) \<times> (C + 1)\<close> index grid holds after filling,
  for \<open>b\<close> input corners. \<open>grid_writes C j\<close>: the cells in the order in which the four border
  updates and the updates of the rows below \<open>j\<close> assign them. \<open>grid_lines\<close>: for each update,
  the vertices of its two ends and of the points it has added. \<open>interp\<close>: the points at the
  given indices of the vertex buffer are the geodesic points between two vertices of the
  buffer. \<open>quad m i j\<close>: the face row of the cell \<open>(i, j)\<close>. \<open>edge_vals\<close>: the values that one
  update assigns. \<open>grid_count b C j\<close>: the length of the vertex buffer once the borders and the
  rows below \<open>j\<close> are done, and \<open>filled C j\<close> the cells assigned by then. \<open>grid_inv\<close>: the
  invariant of the construction. \<open>interior\<close>: the cells off the four borders.
\<close>

definition shape :: "nat \<Rightarrow> 'a list list \<Rightarrow> bool" where
  "shape n m \<longleftrightarrow> length m = n \<and> (\<forall>row \<in> set m. length row = n)"

definition edge_vals :: "int \<Rightarrow> nat \<Rightarrow> int \<Rightarrow> int \<Rightarrow> int list" where
  "edge_vals n cnt idx1 idx2 = [idx1] @ map (\<lambda>k. k + int cnt) (arange n) @ [idx2]"

definition grid_spec :: "nat \<Rightarrow> nat \<Rightarrow> nat \<Rightarrow> nat \<Rightarrow> nat" where
  "grid_spec b C r k =
     (if r = 0 then (if k = 0 then 0 else if k = C then 1 else b + (k - 1))
      else if r = C then (if k = 0 then 3 else if k = C then 2 else b + (C - 1) + (k - 1))
      else if k = 0 then b + 2 * (C - 1) + (r - 1)
      else if k = C then b + 3 * (C - 1) + (r - 1)
      else b + 4 * (C - 1) + (r - 1) * (C - 1) + (k - 1))"

definition interp :: "'p ext \<Rightarrow> geod \<Rightarrow> int \<Rightarrow> bbox_state \<Rightarrow> nat \<Rightarrow> nat \<Rightarrow> nat list \<Rightarrow> bool" where
  "interp E g n st i1 i2 vs \<longleftrightarrow>
     geodesic_by_idx E (bbox_lons st) (bbox_lats st) (int i1) (int i2) n False False False (Some g)
       = Inr (map ((!) (bbox_lons st)) vs, map ((!) (bbox_lats st)) vs)"

definition grid_inv ::
  "'p ext \<Rightarrow> geod \<Rightarrow> nat \<Rightarrow> (nat \<Rightarrow> nat \<Rightarrow> nat) \<Rightarrow> real list \<Rightarrow> real list
     \<Rightarrow> (nat \<Rightarrow> nat \<Rightarrow> bool) \<Rightarrow> nat \<Rightarrow> (nat \<times> nat) list
     \<Rightarrow> (nat \<times> nat \<times> nat list) list \<Rightarrow> bbox_state \<Rightarrow> bool" where
  "grid_inv E g C G P Q F cnt W L st \<longleftrightarrow>
     shape (C + 1) (idx_map st) \<and> length (bbox_lons st) = cnt \<and> length (bbox_lats st) = cnt \<and>
     bbox_count st = cnt \<and> writes st = W \<and>
     (\<exists>zs. bbox_lons st = P @ zs) \<and> (\<exists>ws. bbox_lats st = Q @ ws) \<and>
     (\<forall>r k. r \<le> C \<longrightarrow> k \<le> C \<longrightarrow> F r k \<longrightarrow> idx_map st ! r ! k = Some (int (G r k))) \<and>
     (\<forall>(i1, i2, vs) \<in> set L.
        i1 < cnt \<and> i2 < cnt \<and> (\<forall>v \<in> set vs. v < cnt) \<and> interp E g (int C - 1) st i1 i2 vs)"

definition row_cells :: "nat \<Rightarrow> nat \<Rightarrow> (nat \<times> nat) list" where
  "row_cells C r = map (Pair r) [0..<C + 1]"

definition column_cells :: "nat \<Rightarrow> nat \<Rightarrow> (nat \<times> nat) list" where
  "column_cells C k = map (\<lambda>r. (r, k)) [0..<C + 1]"

definition grid_writes :: "nat \<Rightarrow> nat \<Rightarrow> (nat \<times> nat) list" where
  "grid_writes C j =
     row_cells C 0 @ row_cells C C @ column_cells C 0 @ column_cells C C @
     concat (map (row_cells C) [1..<j])"

definition row_line :: "nat \<Rightarrow> nat \<Rightarrow> nat \<Rightarrow> nat \<times> nat \<times> nat list" where
  "row_line b C r = (grid_spec b C r 0, grid_spec b C r C, map (grid_spec b C r) [1..<C])"

definition column_line :: "nat \<Rightarrow> nat \<Rightarrow> nat \<Rightarrow> nat \<times> nat \<times> nat list" where
  "column_line b C k =
     (grid_spec b C 0 k, grid_spec b C C k, map (\<lambda>r. grid_spec b C r k) [1..<C])"

definition grid_lines :: "nat \<Rightarrow> nat \<Rightarrow> nat \<Rightarrow> (nat \<times> nat \<times> nat list) list" where
  "grid_lines b C j =
     [row_line b C 0, row_line b C C, column_line b C 0, column_line b C C] @
     map (row_line b C) [1..<j]"

definition filled :: "nat \<Rightarrow> nat \<Rightarrow> nat \<Rightarrow> nat \<Rightarrow> bool" where
  "filled C j r k \<longleftrightarrow> r = 0 \<or> r = C \<or> k = 0 \<or> k = C \<or> r < j"

definition grid_count :: "nat \<Rightarrow> nat \<Rightarrow> nat \<Rightarrow> nat" where
  "grid_count b C j = b + 4 * (C - 1) + (j - 1) * (C - 1)"

definition quad :: "int option list list \<Rightarrow> nat \<Rightarrow> nat \<Rightarrow> int list" where
  "quad m i j =
     [4, the (m ! i ! j), the (m ! i ! (j + 1)), the (m ! (i + 1) ! (j + 1)), the (m ! (i + 1) ! j)]"


section \<open>Properties\<close>

subsection \<open>Basic facts\<close>

lemma rbind_Inl [simp]: "rbind (Inl e) f = Inl e"
  by (simp add: rbind_def)

lemma rbind_Inr [simp]: "rbind (Inr x) f = f x"
  by (simp add: rbind_def)

lemma rbind_eq_Inr: "rbind m f = Inr y \<longleftrightarrow> (\<exists>x. m = Inr x \<and> f x = Inr y)"
  by (cases m) simp_all

lemma get_valid: "valid_idx xs i \<Longrightarrow> get xs i = Inr (py_nth xs i)"
  by (auto simp: get_def valid_idx_def py_nth_def Let_def)

lemma get_first: "xs \<noteq> [] \<Longrightarrow> get xs 0 = Inr (xs ! 0)"
  by (simp add: get_def)

lemma get_last: "xs \<noteq> [] \<Longrightarrow> get xs (- 1) = Inr (xs ! (length xs - 1))"
  by (cases xs) (auto simp: get_def Let_def nat_diff_distrib' intro: arg_cong[where f="(!) _"])

lemma wrap1_range: "- 180 \<le> wrap1 x \<and> wrap1 x < 180"
proof -
  define k where "k = \<lfloor>(x + 180) / 360\<rfloor>"
  have "of_int k \<le> (x + 180) / 360" "(x + 180) / 360 < of_int k + 1"
    unfolding k_def by linarith+
  then have "360 * of_int k \<le> x + 180" "x + 180 < 360 * of_int k + 360"
    by (simp_all add: field_simps)
  then show ?thesis
    unfolding wrap1_def k_def[symmetric] by linarith
qed

lemma npts_exact_flat: "npts_exact (Geod flat_npts)"
  by (auto simp: npts_exact_def flat_npts_def Let_def split: if_splits)

lemma ensure_open_closed:
  assumes "lons \<noteq> []" "lats \<noteq> []"
    and "isclose (lons ! 0) (lons ! (length lons - 1))"
    and "isclose (lats ! 0) (lats ! (length lats - 1))"
  shows "ensure_open lons lats
           = Inr (Scal (lons ! (length lons - 1)), Scal (lats ! (length lats - 1)))"
  using assms by (simp add: ensure_open_def get_first get_last)

lemma bbox_fill_scalar:
  assumes "validate lons lats = Inr ()"
    and "ensure_open lons lats = Inr (Scal x, Scal y)"
  shows "bbox_fill E lons lats ellps c =
           (if c + 1 < 0 then Inl NegativeDimensions
            else case pyproj_Geod E ellps of Inl e \<Rightarrow> Inl e | Inr g \<Rightarrow> Inl TypeError)"
  using assms
  by (simp add: bbox_fill_def step_def bbox_extend_def Let_def split: sum.splits)

subsection \<open>The closed-ring step\<close>

text \<open>
  C1. A 5-corner ring whose last point repeats the first should give the mesh of its first 4
  corners. The source replaces the arrays by their last elements (\<^verbatim>\<open>lons[-1]\<close>, not
  \<^verbatim>\<open>lons[:-1]\<close>), so on the closed ring (0,0), (10,0), (10,10), (0,10), (0,0) the first
  \<^verbatim>\<open>bbox_extend\<close> raises on \<^verbatim>\<open>len\<close> of a scalar, while the 4 open corners give a mesh of
  9 points and 4 faces.
\<close>

theorem bbox_closed_ring_fails:
  "bbox flat_ext [0, 10, 10, 0, 0] [0, 0, 10, 10, 0] ''WGS84'' 1 2 False = Inl TypeError \<and>
   bbox flat_ext [0, 10, 10, 0] [0, 0, 10, 10] ''WGS84'' 1 2 False
     = Inr \<lparr>points = [(0, 0, 1), (10, 0, 1), (10, 10, 1), (0, 10, 1), (5, 0, 1),
                       (5, 10, 1), (0, 5, 1), (10, 5, 1), (5, 5, 1)],
            faces = [[4, 0, 4, 8, 6], [4, 4, 1, 7, 8], [4, 6, 8, 5, 3], [4, 8, 7, 2, 5]]\<rparr>"
  by code_simp

text \<open>
  C10. The closed-ring step looks at closeness only, not at the count: with exactly 4 corners
  whose first and last points are close on both axes, the arrays are replaced by their scalar
  last elements and \<^verbatim>\<open>bbox\<close> returns no mesh (it raises: negative dimensions, the failure
  of the ellipsoid constructor, or else the \<^verbatim>\<open>len\<close> of a scalar).
\<close>

theorem bbox_four_close_corners:
  assumes "length lons = 4" "length lats = 4"
    and "isclose (lons ! 0) (lons ! 3)" "isclose (lats ! 0) (lats ! 3)"
  shows "ensure_open lons lats = Inr (Scal (lons ! 3), Scal (lats ! 3)) \<and>
         bbox E lons lats ellps radius c triangulate =
           (if c + 1 < 0 then Inl NegativeDimensions
            else case pyproj_Geod E ellps of Inl e \<Rightarrow> Inl e | Inr g \<Rightarrow> Inl TypeError)"
proof -
  have ne: "lons \<noteq> []" "lats \<noteq> []" using assms by auto
  have eo: "ensure_open lons lats = Inr (Scal (lons ! 3), Scal (lats ! 3))"
    using ensure_open_closed[OF ne] assms by simp
  have va: "validate lons lats = Inr ()"
    using assms by (simp add: validate_def)
  show ?thesis
    using eo bbox_fill_scalar[OF va eo, of E ellps c]
    by (simp add: bbox_def split: sum.splits)
qed

theorem bbox_four_close_corners_witness:
  "length [0, 10, 10, 0 :: real] = 4 \<and> length [0, 0, 10, 0 :: real] = 4 \<and>
   isclose ([0, 10, 10, 0] ! 0) ([0, 10, 10, 0] ! 3) \<and>
   isclose ([0, 0, 10, 0] ! 0) ([0, 0, 10, 0] ! 3) \<and>
   ensure_open [0, 10, 10, 0] [0, 0, 10, 0] = Inr (Scal 0, Scal 0) \<and>
   bbox flat_ext [0, 10, 10, 0] [0, 0, 10, 0] ''WGS84'' 1 2 False = Inl TypeError"
proof -
  have h: "length [0, 10, 10, 0 :: real] = 4" "length [0, 0, 10, 0 :: real] = 4"
    "isclose ([0, 10, 10, 0] ! 0) ([0, 10, 10, 0] ! 3)"
    "isclose ([0, 0, 10, 0] ! 0) ([0, 0, 10, 0] ! 3)"
    by (simp_all add: isclose_def)
  show ?thesis
    using h bbox_four_close_corners [OF h, of flat_ext "''WGS84''" 1 2 False]
    by (simp add: flat_ext_def)
qed

subsection \<open>Geodesic lines\<close>

text \<open>
  C2. For coordinate arrays of equal length and valid (possibly negative) indices \<open>i\<close>, \<open>j\<close>,
  \<^verbatim>\<open>geodesic_by_idx\<close> returns exactly what \<^verbatim>\<open>geodesic\<close> returns on the coordinates at
  \<open>i\<close> and \<open>j\<close>, whatever the other arguments are.
\<close>

theorem geodesic_by_idx_eq:
  assumes "length lons = length lats" "valid_idx lons i" "valid_idx lons j"
  shows "geodesic_by_idx E lons lats i j n radians include_start include_end geod =
         geodesic E (py_nth lons i) (py_nth lats i) (py_nth lons j) (py_nth lats j)
           n radians include_start include_end geod"
proof -
  have v: "valid_idx lats i" "valid_idx lats j"
    using assms by (simp_all add: valid_idx_def)
  show ?thesis
  proof (cases "default_geod E geod")
    case (Inl e)
    then show ?thesis by (simp add: geodesic_by_idx_def geodesic_def)
  next
    case (Inr g)
    then show ?thesis
      using assms v by (simp add: geodesic_by_idx_def geodesic_def get_valid default_geod_def)
  qed
qed

theorem geodesic_by_idx_eq_witness:
  "length [0, 10, 20 :: real] = length [5, 6, 7 :: real] \<and>
   valid_idx [0, 10, 20 :: real] 0 \<and> valid_idx [0, 10, 20 :: real] (- 1) \<and>
   geodesic_by_idx flat_ext [0, 10, 20] [5, 6, 7] 0 (- 1) 3 False False True None =
   geodesic flat_ext 0 5 20 7 3 False False True None"
proof -
  have h: "length [0, 10, 20 :: real] = length [5, 6, 7 :: real]"
    "valid_idx [0, 10, 20 :: real] 0" "valid_idx [0, 10, 20 :: real] (- 1)"
    by (simp_all add: valid_idx_def)
  show ?thesis
    using h geodesic_by_idx_eq [OF h, of flat_ext 3 False False True None]
    by (simp add: py_nth_def)
qed

text \<open>
  C3, as the code has it. \<^verbatim>\<open>geodesic\<close> hands \<^verbatim>\<open>npts\<close> to the reference unchanged and turns
  the two flags into the index arguments (0 for an included end, 1 otherwise). With a reference
  that returns \<^verbatim>\<open>npts\<close> points in all, whenever the reference returns for \<^verbatim>\<open>npts\<close> at least
  1, \<^verbatim>\<open>geodesic\<close> returns two sequences of equal length, and that length is \<^verbatim>\<open>npts\<close> whatever
  the flags are: an included end is one of the \<^verbatim>\<open>npts\<close> points, not one more.
\<close>

theorem geodesic_lengths:
  assumes "default_geod E geod = Inr g" and "npts_exact g"
    and "geod_npts g start_lon start_lat end_lon end_lat n radians
           (if include_start then 0 else 1) (if include_end then 0 else 1) = Inr ps"
    and "0 < n"
  shows "\<exists>glons glats.
           geodesic E start_lon start_lat end_lon end_lat n radians include_start include_end geod
             = Inr (glons, glats) \<and>
           length glons = nat n \<and> length glats = nat n"
proof -
  have len: "length ps = nat n"
    using assms(2,3) unfolding npts_exact_def by blast
  with assms(4) have "ps \<noteq> []" by auto
  with assms(1,3) len show ?thesis
    by (simp add: geodesic_def unzip2_def wrap_def)
qed

theorem geodesic_lengths_witness:
  "(\<exists>glons glats. geodesic flat_ext 0 0 30 30 3 False True False None = Inr (glons, glats) \<and>
      length glons = nat 3 \<and> length glats = nat 3) \<and>
   (\<exists>glons glats. geodesic flat_ext 0 0 30 30 3 False True True None = Inr (glons, glats) \<and>
      length glons = nat 3 \<and> length glats = nat 3) \<and>
   (\<exists>glons glats. geodesic flat_ext 0 0 30 30 3 False False False None = Inr (glons, glats) \<and>
      length glons = nat 3 \<and> length glats = nat 3)"
proof -
  have h1: "default_geod flat_ext None = Inr (Geod flat_npts)"
    by (simp add: default_geod_def flat_ext_def)
  have a: "geod_npts (Geod flat_npts) 0 0 30 30 3 False (if True then 0 else 1)
             (if False then 0 else 1) = Inr [(0, 0), (10, 10), (20, 20)]"
    by code_simp
  have b: "geod_npts (Geod flat_npts) 0 0 30 30 3 False (if True then 0 else 1)
             (if True then 0 else 1) = Inr [(0, 0), (15, 15), (30, 30)]"
    by code_simp
  have c: "geod_npts (Geod flat_npts) 0 0 30 30 3 False (if False then 0 else 1)
             (if False then 0 else 1) = Inr [(15 / 2, 15 / 2), (15, 15), (45 / 2, 45 / 2)]"
    by code_simp
  have pos: "(0 :: int) < 3" by simp
  show ?thesis
    using geodesic_lengths [OF h1 npts_exact_flat a pos]
      geodesic_lengths [OF h1 npts_exact_flat b pos]
      geodesic_lengths [OF h1 npts_exact_flat c pos]
    by blast
qed

text \<open>
  With a reference that returns \<^verbatim>\<open>npts\<close> points in all, included ends among them,
  \<^verbatim>\<open>geodesic\<close> with \<^verbatim>\<open>npts = 3\<close> and the start included returns 3 points, not 4.
\<close>

theorem geodesic_npts_counterexample:
  "geodesic flat_ext 0 0 30 30 3 False True False None = Inr ([0, 10, 20], [0, 10, 20]) \<and>
   length [0, 10, 20 :: real] \<noteq> 3 + 1"
  by code_simp

text \<open>
  C4. Every longitude that \<^verbatim>\<open>geodesic\<close> returns lies in [-180, 180), and the latitudes
  returned are those of the reference's points, unchanged.
\<close>

theorem geodesic_wrap:
  assumes "geodesic E start_lon start_lat end_lon end_lat n radians include_start include_end geod
             = Inr (glons, glats)"
  shows "(\<forall>x \<in> set glons. - 180 \<le> x \<and> x < 180) \<and>
         (\<exists>g ps. default_geod E geod = Inr g \<and>
            geod_npts g start_lon start_lat end_lon end_lat n radians
              (if include_start then 0 else 1) (if include_end then 0 else 1) = Inr ps \<and>
            glats = map snd ps)"
  using assms
  by (auto simp: geodesic_def unzip2_def wrap_def rbind_eq_Inr wrap1_range Let_def
           split: if_splits)

theorem geodesic_wrap_witness:
  "geodesic flat_ext 185 0 195 10 3 False True False None
     = Inr ([- 175, - (515 / 3), - (505 / 3)], [0, 10 / 3, 20 / 3]) \<and>
   list_all (\<lambda>x. - 180 \<le> x \<and> x < 180) [- 175, - (515 / 3), - (505 / 3) :: real] \<and>
   (\<exists>g ps. default_geod flat_ext None = Inr g \<and>
      geod_npts g 185 0 195 10 3 False (if True then 0 else 1) (if False then 0 else 1) = Inr ps \<and>
      [0, 10 / 3, 20 / 3] = map snd ps)"
proof -
  have h: "geodesic flat_ext 185 0 195 10 3 False True False None
     = Inr ([- 175, - (515 / 3), - (505 / 3)], [0, 10 / 3, 20 / 3])"
    by code_simp
  show ?thesis
    using h geodesic_wrap [OF h] unfolding list_all_iff by blast
qed

subsection \<open>Validation\<close>

text \<open>
  C5. \<^verbatim>\<open>bbox\<close> checks its input first: different counts of longitudes and latitudes give
  the shape-mismatch error with both counts; otherwise fewer than 4 corners give the
  insufficient-corners error and more than 5 the ambiguous-geometry error, each with the count.
  In each case the result is the error and no mesh, whatever the ellipsoid, \<^verbatim>\<open>c\<close> and the
  external collaborators are.
\<close>

theorem bbox_validation:
  "(length lons \<noteq> length lats \<longrightarrow>
      bbox E lons lats ellps radius c tri = Inl (ShapeMismatch (length lons) (length lats))) \<and>
   (length lons = length lats \<and> length lons < 4 \<longrightarrow>
      bbox E lons lats ellps radius c tri = Inl (InsufficientCorners (length lons))) \<and>
   (length lons = length lats \<and> 5 < length lons \<longrightarrow>
      bbox E lons lats ellps radius c tri = Inl (AmbiguousCorners (length lons)))"
  by (simp add: bbox_def bbox_fill_def validate_def)

theorem bbox_validation_witness:
  "bbox flat_ext [0, 10, 10, 0] [0, 0, 10, 10, 0] ''WGS84'' 1 2 False = Inl (ShapeMismatch 4 5) \<and>
   bbox flat_ext [0, 10, 10] [0, 0, 10] ''WGS84'' 1 2 False = Inl (InsufficientCorners 3) \<and>
   bbox flat_ext [0, 10, 10, 0, 0, 5] [0, 0, 10, 10, 0, 5] ''WGS84'' 1 2 False
     = Inl (AmbiguousCorners 6)"
  using bbox_validation [of "[0, 10, 10, 0]" "[0, 0, 10, 10, 0]" flat_ext "''WGS84''" 1 2 False]
    bbox_validation [of "[0, 10, 10]" "[0, 0, 10]" flat_ext "''WGS84''" 1 2 False]
    bbox_validation [of "[0, 10, 10, 0, 0, 5]" "[0, 0, 10, 10, 0, 5]" flat_ext "''WGS84''" 1 2 False]
  by simp

subsection \<open>The index grid\<close>

lemma shape_nth: "shape n m \<Longrightarrow> r < n \<Longrightarrow> length (m ! r) = n"
  by (simp add: shape_def)

lemma shape_length: "shape n m \<Longrightarrow> length m = n"
  by (simp add: shape_def)

lemma shape_set_row: "shape n m \<Longrightarrow> length vs = n \<Longrightarrow> shape n (set_row m r vs)"
  by (auto simp: shape_def set_row_def dest: set_update_subset_insert[THEN subsetD])

lemma shape_set_column: "shape n m \<Longrightarrow> length vs = n \<Longrightarrow> shape n (set_column m k vs)"
  by (auto simp: shape_def set_column_def dest!: set_zip_leftD)

lemma set_row_cell:
  "r < length m \<Longrightarrow> r' < length m \<Longrightarrow> k < length vs \<Longrightarrow>
   set_row m r vs ! r' ! k = (if r' = r then Some (vs ! k) else m ! r' ! k)"
  by (simp add: set_row_def nth_list_update)

lemma set_column_cell:
  "length vs = length m \<Longrightarrow> r < length m \<Longrightarrow> k < length (m ! r) \<Longrightarrow> k' < length (m ! r) \<Longrightarrow>
   set_column m k vs ! r ! k' = (if k' = k then Some (vs ! r) else m ! r ! k')"
  by (simp add: set_column_def nth_list_update)

lemma length_arange: "length (arange n) = nat n"
  by (simp add: arange_def)

lemma nth_arange: "k < nat n \<Longrightarrow> arange n ! k = int k"
  by (simp add: arange_def)

lemma length_edge_vals: "length (edge_vals n cnt idx1 idx2) = nat n + 2"
  by (simp add: edge_vals_def length_arange)

lemma nth_edge_vals:
  "k \<le> nat n + 1 \<Longrightarrow>
   edge_vals n cnt idx1 idx2 ! k =
     (if k = 0 then idx1 else if k = nat n + 1 then idx2 else int (k - 1) + int cnt)"
  by (auto simp: edge_vals_def nth_append nth_Cons' length_arange nth_arange)

lemma geodesic_exact:
  assumes "geodesic E a b c d n radians False False (Some g) = Inr (glons, glats)"
    and "npts_exact g"
  shows "length glons = nat n \<and> length glats = nat n \<and> 1 \<le> n"
proof -
  from assms(1) obtain ps where ps: "geod_npts g a b c d n radians 1 1 = Inr ps"
    and ne: "ps \<noteq> []" and gl: "glons = wrap (map fst ps)" "glats = map snd ps"
    by (auto simp: geodesic_def default_geod_def unzip2_def rbind_eq_Inr split: if_splits)
  from ps assms(2) have "length ps = nat n" by (auto simp: npts_exact_def)
  with ne gl show ?thesis by (cases ps) (auto simp: wrap_def)
qed

lemma geodesic_by_idx_exact:
  assumes "geodesic_by_idx E xs ys i j n radians False False (Some g) = Inr (glons, glats)"
    and "npts_exact g"
  shows "length glons = nat n \<and> length glats = nat n \<and> 1 \<le> n"
  using assms
  by (auto simp: geodesic_by_idx_def default_geod_def rbind_eq_Inr dest: geodesic_exact)

lemma bbox_extend_Arr:
  "bbox_extend st (Arr xs) (Arr ys) = Inr (st', cnt) \<longleftrightarrow>
     length xs = length ys \<and>
     st' = st\<lparr>bbox_lons := bbox_lons st @ xs, bbox_lats := bbox_lats st @ ys\<rparr> \<and>
     cnt = bbox_count st + length xs"
  by (auto simp: bbox_extend_def)

lemma rbind_pair_Inr:
  "rbind m (\<lambda>(a, b). f a b) = Inr y \<longleftrightarrow> (\<exists>a b. m = Inr (a, b) \<and> f a b = Inr y)"
  by (cases m) auto

lemma bbox_update_unfold:
  "row \<noteq> None \<or> column \<noteq> None \<Longrightarrow>
   bbox_update E g n side st idx1 idx2 row column =
     rbind (geodesic_by_idx E (bbox_lons st) (bbox_lats st) idx1 idx2 n False False False (Some g))
       (\<lambda>(glons, glats).
     rbind (assign side (idx_map st) row column (edge_vals n (bbox_count st) idx1 idx2))
       (\<lambda>(m, cells).
     bbox_extend (st\<lparr>idx_map := m, writes := writes st @ cells\<rparr>) (Arr glons) (Arr glats)))"
  unfolding bbox_update_def edge_vals_def by (cases row; cases column) simp_all

lemma assign_row:
  assumes "assign n m (Some r) None vals = Inr (m', cells)" "2 \<le> length vals"
  shows "\<exists>r'. norm_index n r = Inr r' \<and> length vals = n \<and> m' = set_row m r' vals \<and>
              cells = map (\<lambda>k. (r', k)) [0..<n]"
proof (cases "norm_index n r")
  case (Inl e)
  with assms show ?thesis by (simp add: assign_def)
next
  case (Inr r')
  with assms show ?thesis by (simp add: assign_def split: if_splits)
qed

lemma assign_column:
  assumes "assign n m None (Some k) vals = Inr (m', cells)" "2 \<le> length vals"
  shows "\<exists>k'. norm_index n k = Inr k' \<and> length vals = n \<and> m' = set_column m k' vals \<and>
              cells = map (\<lambda>r. (r, k')) [0..<n]"
proof (cases "norm_index n k")
  case (Inl e)
  with assms show ?thesis by (simp add: assign_def)
next
  case (Inr k')
  with assms show ?thesis by (simp add: assign_def split: if_splits)
qed

lemma bbox_update_row:
  assumes "bbox_update E g n side st idx1 idx2 (Some r) None = Inr (st', cnt)"
    and "npts_exact g"
  shows "\<exists>r' glons glats.
           norm_index side r = Inr r' \<and>
           geodesic_by_idx E (bbox_lons st) (bbox_lats st) idx1 idx2 n False False False (Some g)
             = Inr (glons, glats) \<and>
           length glons = nat n \<and> length glats = nat n \<and> 1 \<le> n \<and> side = nat n + 2 \<and>
           st' = st\<lparr>idx_map := set_row (idx_map st) r' (edge_vals n (bbox_count st) idx1 idx2),
                     writes := writes st @ map (\<lambda>k. (r', k)) [0..<side],
                     bbox_lons := bbox_lons st @ glons, bbox_lats := bbox_lats st @ glats\<rparr> \<and>
           cnt = bbox_count st + nat n"
proof -
  have u: "rbind (geodesic_by_idx E (bbox_lons st) (bbox_lats st) idx1 idx2 n False False False (Some g))
       (\<lambda>(glons, glats).
     rbind (assign side (idx_map st) (Some r) None (edge_vals n (bbox_count st) idx1 idx2))
       (\<lambda>(m, cells).
     bbox_extend (st\<lparr>idx_map := m, writes := writes st @ cells\<rparr>) (Arr glons) (Arr glats)))
     = Inr (st', cnt)"
    using assms(1) by (simp add: bbox_update_unfold)
  then obtain glons glats where
    gd: "geodesic_by_idx E (bbox_lons st) (bbox_lats st) idx1 idx2 n False False False (Some g)
           = Inr (glons, glats)"
    and u2: "rbind (assign side (idx_map st) (Some r) None (edge_vals n (bbox_count st) idx1 idx2))
       (\<lambda>(m, cells).
     bbox_extend (st\<lparr>idx_map := m, writes := writes st @ cells\<rparr>) (Arr glons) (Arr glats))
     = Inr (st', cnt)"
    unfolding rbind_pair_Inr by blast
  from u2 obtain m cells where
    as: "assign side (idx_map st) (Some r) None (edge_vals n (bbox_count st) idx1 idx2)
           = Inr (m, cells)"
    and ex: "bbox_extend (st\<lparr>idx_map := m, writes := writes st @ cells\<rparr>) (Arr glons) (Arr glats)
           = Inr (st', cnt)"
    unfolding rbind_pair_Inr by blast
  note len = geodesic_by_idx_exact[OF gd assms(2)]
  from assign_row[OF as] obtain r' where r': "norm_index side r = Inr r'"
    and sd: "side = nat n + 2"
    and m: "m = set_row (idx_map st) r' (edge_vals n (bbox_count st) idx1 idx2)"
    and cells: "cells = map (\<lambda>k. (r', k)) [0..<side]"
    by (auto simp: length_edge_vals)
  from ex have "st' = st\<lparr>idx_map := m, writes := writes st @ cells,
                     bbox_lons := bbox_lons st @ glons, bbox_lats := bbox_lats st @ glats\<rparr>"
    and "cnt = bbox_count st + length glons"
    by (simp_all add: bbox_extend_Arr)
  with gd r' sd m cells len show ?thesis by simp
qed

lemma bbox_update_column:
  assumes "bbox_update E g n side st idx1 idx2 None (Some k) = Inr (st', cnt)"
    and "npts_exact g"
  shows "\<exists>k' glons glats.
           norm_index side k = Inr k' \<and>
           geodesic_by_idx E (bbox_lons st) (bbox_lats st) idx1 idx2 n False False False (Some g)
             = Inr (glons, glats) \<and>
           length glons = nat n \<and> length glats = nat n \<and> 1 \<le> n \<and> side = nat n + 2 \<and>
           st' = st\<lparr>idx_map := set_column (idx_map st) k' (edge_vals n (bbox_count st) idx1 idx2),
                     writes := writes st @ map (\<lambda>r. (r, k')) [0..<side],
                     bbox_lons := bbox_lons st @ glons, bbox_lats := bbox_lats st @ glats\<rparr> \<and>
           cnt = bbox_count st + nat n"
proof -
  have u: "rbind (geodesic_by_idx E (bbox_lons st) (bbox_lats st) idx1 idx2 n False False False (Some g))
       (\<lambda>(glons, glats).
     rbind (assign side (idx_map st) None (Some k) (edge_vals n (bbox_count st) idx1 idx2))
       (\<lambda>(m, cells).
     bbox_extend (st\<lparr>idx_map := m, writes := writes st @ cells\<rparr>) (Arr glons) (Arr glats)))
     = Inr (st', cnt)"
    using assms(1) by (simp add: bbox_update_unfold)
  then obtain glons glats where
    gd: "geodesic_by_idx E (bbox_lons st) (bbox_lats st) idx1 idx2 n False False False (Some g)
           = Inr (glons, glats)"
    and u2: "rbind (assign side (idx_map st) None (Some k) (edge_vals n (bbox_count st) idx1 idx2))
       (\<lambda>(m, cells).
     bbox_extend (st\<lparr>idx_map := m, writes := writes st @ cells\<rparr>) (Arr glons) (Arr glats))
     = Inr (st', cnt)"
    unfolding rbind_pair_Inr by blast
  from u2 obtain m cells where
    as: "assign side (idx_map st) None (Some k) (edge_vals n (bbox_count st) idx1 idx2)
           = Inr (m, cells)"
    and ex: "bbox_extend (st\<lparr>idx_map := m, writes := writes st @ cells\<rparr>) (Arr glons) (Arr glats)
           = Inr (st', cnt)"
    unfolding rbind_pair_Inr by blast
  note len = geodesic_by_idx_exact[OF gd assms(2)]
  from assign_column[OF as] obtain k' where k': "norm_index side k = Inr k'"
    and sd: "side = nat n + 2"
    and m: "m = set_column (idx_map st) k' (edge_vals n (bbox_count st) idx1 idx2)"
    and cells: "cells = map (\<lambda>r. (r, k')) [0..<side]"
    by (auto simp: length_edge_vals)
  from ex have "st' = st\<lparr>idx_map := m, writes := writes st @ cells,
                     bbox_lons := bbox_lons st @ glons, bbox_lats := bbox_lats st @ glats\<rparr>"
    and "cnt = bbox_count st + length glons"
    by (simp_all add: bbox_extend_Arr)
  with gd k' sd m cells len show ?thesis by simp
qed

lemma get_append: "i < length xs \<Longrightarrow> get (xs @ zs) (int i) = get xs (int i)"
  by (simp add: get_def nth_append)

lemma geodesic_by_idx_append:
  assumes "i1 < length xs" "i2 < length xs" "length xs = length ys"
  shows "geodesic_by_idx E (xs @ zs) (ys @ ws) (int i1) (int i2) n rad is ie geod
         = geodesic_by_idx E xs ys (int i1) (int i2) n rad is ie geod"
  using assms by (simp add: geodesic_by_idx_def get_append)

lemma map_nth_append_left:
  "\<forall>v \<in> set vs. v < length xs \<Longrightarrow> map ((!) (xs @ zs)) vs = map ((!) xs) vs"
  by (simp add: nth_append)

lemma map_nth_append_right:
  "map ((!) (xs @ zs)) [length xs..<length xs + length zs] = zs"
  by (rule nth_equalityI) (simp_all add: nth_append)

lemma interp_append:
  assumes "interp E g n st i1 i2 vs"
    and "i1 < length (bbox_lons st)" "i2 < length (bbox_lons st)"
    and "\<forall>v \<in> set vs. v < length (bbox_lons st)"
    and "length (bbox_lons st) = length (bbox_lats st)"
    and "bbox_lons st' = bbox_lons st @ zs" "bbox_lats st' = bbox_lats st @ ws"
  shows "interp E g n st' i1 i2 vs"
  using assms
  by (simp add: interp_def geodesic_by_idx_append map_nth_append_left)

lemma interp_new:
  assumes "geodesic_by_idx E (bbox_lons st) (bbox_lats st) (int i1) (int i2) n False False False
             (Some g) = Inr (glons, glats)"
    and "i1 < length (bbox_lons st)" "i2 < length (bbox_lons st)"
    and "length (bbox_lons st) = length (bbox_lats st)" "length glons = length glats"
    and "bbox_lons st' = bbox_lons st @ glons" "bbox_lats st' = bbox_lats st @ glats"
  shows "interp E g n st' i1 i2 [length (bbox_lons st)..<length (bbox_lons st) + length glons]"
proof -
  let ?vs = "[length (bbox_lons st)..<length (bbox_lons st) + length glons]"
  have a: "map ((!) (bbox_lons st')) ?vs = glons"
    unfolding assms(6) by (rule map_nth_append_right)
  have "map ((!) (bbox_lats st @ glats))
          [length (bbox_lats st)..<length (bbox_lats st) + length glats] = glats"
    by (rule map_nth_append_right)
  then have b: "map ((!) (bbox_lats st')) ?vs = glats"
    unfolding assms(7) assms(4) assms(5) .
  have c: "geodesic_by_idx E (bbox_lons st') (bbox_lats st') (int i1) (int i2) n False False False
             (Some g) = Inr (glons, glats)"
    unfolding assms(6) assms(7)
    by (simp only: geodesic_by_idx_append[OF assms(2) assms(3) assms(4)] assms(1))
  show ?thesis
    unfolding interp_def a b c ..
qed

lemma norm_index_bound: "norm_index n i = Inr j \<Longrightarrow> j < n"
  by (auto simp: norm_index_def split: if_splits)

lemma grid_inv_extend:
  assumes inv: "grid_inv E g C G P Q F cnt W L st"
    and gd: "geodesic_by_idx E (bbox_lons st) (bbox_lats st) (int i1) (int i2) (int C - 1)
               False False False (Some g) = Inr (glons, glats)"
    and len: "length glons = C - 1" "length glats = C - 1"
    and i: "i1 < cnt" "i2 < cnt"
    and sh: "shape (C + 1) m"
    and cells: "\<And>r k. r \<le> C \<Longrightarrow> k \<le> C \<Longrightarrow> F' r k \<Longrightarrow> m ! r ! k = Some (int (G r k))"
  shows "grid_inv E g C G P Q F' (cnt + (C - 1)) (W @ ws) (L @ [(i1, i2, [cnt..<cnt + (C - 1)])])
           (st\<lparr>idx_map := m, writes := writes st @ ws,
               bbox_lons := bbox_lons st @ glons, bbox_lats := bbox_lats st @ glats,
               bbox_count := cnt + (C - 1)\<rparr>)"
proof -
  let ?st = "st\<lparr>idx_map := m, writes := writes st @ ws,
               bbox_lons := bbox_lons st @ glons, bbox_lats := bbox_lats st @ glats,
               bbox_count := cnt + (C - 1)\<rparr>"
  from inv have l: "length (bbox_lons st) = cnt" "length (bbox_lats st) = cnt"
    and w: "writes st = W"
    and pre: "\<exists>zs. bbox_lons st = P @ zs" "\<exists>ws. bbox_lats st = Q @ ws"
    and old: "\<And>j1 j2 vs. (j1, j2, vs) \<in> set L \<Longrightarrow>
                j1 < cnt \<and> j2 < cnt \<and> (\<forall>v \<in> set vs. v < cnt) \<and> interp E g (int C - 1) st j1 j2 vs"
    by (auto simp: grid_inv_def)
  have ll: "length (bbox_lons st) = length (bbox_lats st)" using l by simp
  have new: "interp E g (int C - 1) ?st i1 i2 [cnt..<cnt + (C - 1)]"
    using interp_new[where st'="?st", OF gd _ _ ll] i l len by simp
  have keep: "interp E g (int C - 1) ?st j1 j2 vs" if "(j1, j2, vs) \<in> set L" for j1 j2 vs
  proof (rule interp_append[where st=st])
    show "interp E g (int C - 1) st j1 j2 vs" using old[OF that] by simp
    show "j1 < length (bbox_lons st)" "j2 < length (bbox_lons st)"
      "\<forall>v \<in> set vs. v < length (bbox_lons st)"
      using old[OF that] l by simp_all
    show "length (bbox_lons st) = length (bbox_lats st)" by (rule ll)
    show "bbox_lons ?st = bbox_lons st @ glons" "bbox_lats ?st = bbox_lats st @ glats"
      by simp_all
  qed
  have lines: "\<forall>(j1, j2, vs) \<in> set (L @ [(i1, i2, [cnt..<cnt + (C - 1)])]).
        j1 < cnt + (C - 1) \<and> j2 < cnt + (C - 1) \<and> (\<forall>v \<in> set vs. v < cnt + (C - 1)) \<and>
        interp E g (int C - 1) ?st j1 j2 vs"
  proof (clarify)
    fix j1 j2 vs
    assume "(j1, j2, vs) \<in> set (L @ [(i1, i2, [cnt..<cnt + (C - 1)])])"
    then consider "(j1, j2, vs) \<in> set L" | "j1 = i1" "j2 = i2" "vs = [cnt..<cnt + (C - 1)]"
      by auto
    then show "j1 < cnt + (C - 1) \<and> j2 < cnt + (C - 1) \<and> (\<forall>v \<in> set vs. v < cnt + (C - 1)) \<and>
        interp E g (int C - 1) ?st j1 j2 vs"
    proof cases
      case 1
      with old[OF 1] keep[OF 1] show ?thesis by auto
    next
      case 2
      with new i show ?thesis by auto
    qed
  qed
  show ?thesis
    unfolding grid_inv_def
    using sh l len w cells lines pre by auto
qed

lemma grid_inv_row:
  assumes inv: "grid_inv E g C G P Q F cnt W L st"
    and upd: "bbox_update E g (int C - 1) (C + 1) st (int i1) (int i2) (Some r) None
                = Inr (st', cnt')"
    and ex: "npts_exact g"
    and r0: "norm_index (C + 1) r = Inr r0"
    and i: "i1 < cnt" "i2 < cnt"
    and vals: "\<And>k. k \<le> C \<Longrightarrow>
                 G r0 k = (if k = 0 then i1 else if k = C then i2 else cnt + (k - 1))"
    and F': "\<And>r k. F' r k \<Longrightarrow> F r k \<or> r = r0"
  shows "2 \<le> C \<and>
         grid_inv E g C G P Q F' (cnt + (C - 1)) (W @ map (Pair r0) [0..<C + 1])
           (L @ [(i1, i2, [cnt..<cnt + (C - 1)])]) (st'\<lparr>bbox_count := cnt'\<rparr>)"
proof -
  from inv have bc: "bbox_count st = cnt" and sh: "shape (C + 1) (idx_map st)"
    and old: "\<And>r k. r \<le> C \<Longrightarrow> k \<le> C \<Longrightarrow> F r k \<Longrightarrow>
                idx_map st ! r ! k = Some (int (G r k))"
    by (auto simp: grid_inv_def)
  let ?ev = "edge_vals (int C - 1) cnt (int i1) (int i2)"
  let ?m = "set_row (idx_map st) r0 ?ev"
  from bbox_update_row[OF upd ex] r0 bc obtain glons glats where
    gd: "geodesic_by_idx E (bbox_lons st) (bbox_lats st) (int i1) (int i2) (int C - 1)
           False False False (Some g) = Inr (glons, glats)"
    and len: "length glons = nat (int C - 1)" "length glats = nat (int C - 1)"
    and c2: "1 \<le> int C - 1"
    and st': "st' = st\<lparr>idx_map := ?m, writes := writes st @ map (Pair r0) [0..<C + 1],
                 bbox_lons := bbox_lons st @ glons, bbox_lats := bbox_lats st @ glats\<rparr>"
    and cnt': "cnt' = cnt + nat (int C - 1)"
    by auto
  have C: "2 \<le> C" using c2 by simp
  have n: "nat (int C - 1) = C - 1" by simp
  have lev: "length ?ev = C + 1" using C by (simp add: length_edge_vals)
  have sn: "nat (int C - 1) + 1 = C" using C by simp
  have nev: "?ev ! j = (if j = 0 then int i1 else if j = C then int i2 else int (j - 1) + int cnt)"
    if "j \<le> C" for j
    using nth_edge_vals[of j "int C - 1" cnt "int i1" "int i2"] that unfolding sn by simp
  have rb: "r0 < C + 1" using norm_index_bound[OF r0] .
  have shm: "shape (C + 1) ?m" using sh lev by (rule shape_set_row)
  have cells: "?m ! r ! k = Some (int (G r k))"
    if "r \<le> C" "k \<le> C" "F' r k" for r k
  proof (cases "r = r0")
    case True
    have "?m ! r ! k = Some (?ev ! k)"
      using True that rb lev shape_length[OF sh] by (simp add: set_row_cell)
    also have "?ev ! k = int (G r0 k)"
      using that(2) vals[OF that(2)] by (simp add: nev)
    finally show ?thesis using True by simp
  next
    case False
    have "?m ! r ! k = idx_map st ! r ! k"
      using False that rb lev shape_length[OF sh] by (simp add: set_row_cell)
    also have "\<dots> = Some (int (G r k))"
      using old[OF that(1,2)] F'[OF that(3)] False by simp
    finally show ?thesis .
  qed
  have eq: "st'\<lparr>bbox_count := cnt'\<rparr> =
            st\<lparr>idx_map := ?m, writes := writes st @ map (Pair r0) [0..<C + 1],
               bbox_lons := bbox_lons st @ glons, bbox_lats := bbox_lats st @ glats,
               bbox_count := cnt + (C - 1)\<rparr>"
    unfolding st' cnt' n by simp
  show ?thesis
    unfolding eq
    using C grid_inv_extend[OF inv gd len[unfolded n] i shm cells] by simp
qed

lemma grid_inv_column:
  assumes inv: "grid_inv E g C G P Q F cnt W L st"
    and upd: "bbox_update E g (int C - 1) (C + 1) st (int i1) (int i2) None (Some k)
                = Inr (st', cnt')"
    and ex: "npts_exact g"
    and k0: "norm_index (C + 1) k = Inr k0"
    and i: "i1 < cnt" "i2 < cnt"
    and vals: "\<And>r. r \<le> C \<Longrightarrow>
                 G r k0 = (if r = 0 then i1 else if r = C then i2 else cnt + (r - 1))"
    and F': "\<And>r k. F' r k \<Longrightarrow> F r k \<or> k = k0"
  shows "2 \<le> C \<and>
         grid_inv E g C G P Q F' (cnt + (C - 1)) (W @ map (\<lambda>r. (r, k0)) [0..<C + 1])
           (L @ [(i1, i2, [cnt..<cnt + (C - 1)])]) (st'\<lparr>bbox_count := cnt'\<rparr>)"
proof -
  from inv have bc: "bbox_count st = cnt" and sh: "shape (C + 1) (idx_map st)"
    and old: "\<And>r k. r \<le> C \<Longrightarrow> k \<le> C \<Longrightarrow> F r k \<Longrightarrow>
                idx_map st ! r ! k = Some (int (G r k))"
    by (auto simp: grid_inv_def)
  let ?ev = "edge_vals (int C - 1) cnt (int i1) (int i2)"
  let ?m = "set_column (idx_map st) k0 ?ev"
  from bbox_update_column[OF upd ex] k0 bc obtain glons glats where
    gd: "geodesic_by_idx E (bbox_lons st) (bbox_lats st) (int i1) (int i2) (int C - 1)
           False False False (Some g) = Inr (glons, glats)"
    and len: "length glons = nat (int C - 1)" "length glats = nat (int C - 1)"
    and c2: "1 \<le> int C - 1"
    and st': "st' = st\<lparr>idx_map := ?m, writes := writes st @ map (\<lambda>r. (r, k0)) [0..<C + 1],
                 bbox_lons := bbox_lons st @ glons, bbox_lats := bbox_lats st @ glats\<rparr>"
    and cnt': "cnt' = cnt + nat (int C - 1)"
    by auto
  have C: "2 \<le> C" using c2 by simp
  have n: "nat (int C - 1) = C - 1" by simp
  have lev: "length ?ev = C + 1" using C by (simp add: length_edge_vals)
  have sn: "nat (int C - 1) + 1 = C" using C by simp
  have nev: "?ev ! j = (if j = 0 then int i1 else if j = C then int i2 else int (j - 1) + int cnt)"
    if "j \<le> C" for j
    using nth_edge_vals[of j "int C - 1" cnt "int i1" "int i2"] that unfolding sn by simp
  have kb: "k0 < C + 1" using norm_index_bound[OF k0] .
  have shm: "shape (C + 1) ?m" using sh lev by (rule shape_set_column)
  have cells: "?m ! r ! k = Some (int (G r k))"
    if "r \<le> C" "k \<le> C" "F' r k" for r k
  proof -
    have lr: "length (idx_map st ! r) = C + 1"
      using shape_nth[OF sh, of r] that by simp
    have upd_cell: "?m ! r ! k = (if k = k0 then Some (?ev ! r) else idx_map st ! r ! k)"
      using that kb lev lr shape_length[OF sh] by (simp add: set_column_cell)
    show ?thesis
    proof (cases "k = k0")
      case True
      have "?ev ! r = int (G r k0)"
        using that(1) vals[OF that(1)] by (simp add: nev)
      with upd_cell True show ?thesis by simp
    next
      case False
      with upd_cell old[OF that(1,2)] F'[OF that(3)] show ?thesis by simp
    qed
  qed
  have eq: "st'\<lparr>bbox_count := cnt'\<rparr> =
            st\<lparr>idx_map := ?m, writes := writes st @ map (\<lambda>r. (r, k0)) [0..<C + 1],
               bbox_lons := bbox_lons st @ glons, bbox_lats := bbox_lats st @ glats,
               bbox_count := cnt + (C - 1)\<rparr>"
    unfolding st' cnt' n by simp
  show ?thesis
    unfolding eq
    using C grid_inv_extend[OF inv gd len[unfolded n] i shm cells] by simp
qed

lemma map_upt_shift:
  assumes "\<And>k. 1 \<le> k \<Longrightarrow> k < C \<Longrightarrow> f k = cnt + (k - 1)"
  shows "map f [1..<C] = [cnt..<cnt + (C - 1)]"
proof (rule nth_equalityI)
  show "length (map f [1..<C]) = length [cnt..<cnt + (C - 1)]" by simp
next
  fix i assume "i < length (map f [1..<C])"
  then have i: "i < C - 1" by simp
  then have "map f [1..<C] ! i = f (1 + i)" by simp
  also have "\<dots> = cnt + i" using assms[of "1 + i"] i by simp
  finally show "map f [1..<C] ! i = [cnt..<cnt + (C - 1)] ! i" using i by simp
qed

lemma grid_count_Suc: "1 \<le> j \<Longrightarrow> grid_count b C j + (C - 1) = grid_count b C (Suc j)"
  by (cases j) (simp_all add: grid_count_def)

lemma row_line_inner:
  assumes "0 < r" "r < C"
  shows "row_line b C r =
           (b + 2 * (C - 1) + (r - 1), b + 3 * (C - 1) + (r - 1),
            [grid_count b C r..<grid_count b C r + (C - 1)])"
proof -
  have "map (grid_spec b C r) [1..<C] = [grid_count b C r..<grid_count b C r + (C - 1)]"
    by (rule map_upt_shift) (use assms in \<open>simp add: grid_spec_def grid_count_def\<close>)
  then show ?thesis using assms by (simp add: row_line_def grid_spec_def)
qed

lemma grid_writes_Suc: "1 \<le> j \<Longrightarrow> grid_writes C j @ row_cells C j = grid_writes C (Suc j)"
  by (simp add: grid_writes_def)

lemma grid_lines_Suc: "1 \<le> j \<Longrightarrow> grid_lines b C j @ [row_line b C j] = grid_lines b C (Suc j)"
  by (simp add: grid_lines_def)

lemma norm_index_nat: "j < n \<Longrightarrow> norm_index n (int j) = Inr j"
  by (simp add: norm_index_def)

lemma get_nat: "j < length xs \<Longrightarrow> get xs (int j) = Inr (xs ! j)"
  by (simp add: get_def)

lemma inner_rows_step:
  assumes ex: "npts_exact g" and C: "2 \<le> C" and b: "4 \<le> b"
    and j: "1 \<le> j" "j < C"
    and inv: "grid_inv E g C (grid_spec b C) P Q (filled C j) (grid_count b C j) (grid_writes C j)
               (grid_lines b C j) st"
    and run: "inner_rows E g (int C - 1) (C + 1) (int j # rest) st = Inr st'"
  shows "\<exists>st1. grid_inv E g C (grid_spec b C) P Q (filled C (Suc j)) (grid_count b C (Suc j))
                 (grid_writes C (Suc j)) (grid_lines b C (Suc j)) st1 \<and>
               inner_rows E g (int C - 1) (C + 1) rest st1 = Inr st'"
proof -
  let ?i1 = "grid_spec b C j 0" and ?i2 = "grid_spec b C j C"
  from inv have sh: "shape (C + 1) (idx_map st)"
    and cells: "\<And>r k. r \<le> C \<Longrightarrow> k \<le> C \<Longrightarrow> filled C j r k \<Longrightarrow>
                  idx_map st ! r ! k = Some (int (grid_spec b C r k))"
    by (auto simp: grid_inv_def)
  have lr: "length (idx_map st ! j) = C + 1" using shape_nth[OF sh, of j] j by simp
  have g0: "get (idx_map st) (int j) = Inr (idx_map st ! j)"
    using j shape_length[OF sh] by (simp add: get_nat)
  have ne: "idx_map st ! j \<noteq> []" using lr by auto
  have c0: "idx_map st ! j ! 0 = Some (int ?i1)"
    using cells[of j 0] j by (simp add: filled_def)
  have cC: "idx_map st ! j ! C = Some (int ?i2)"
    using cells[of j C] j by (simp add: filled_def)
  have g1: "get (idx_map st ! j) 0 = Inr (Some (int ?i1))"
    using get_first[OF ne] c0 by simp
  have g2: "get (idx_map st ! j) (- 1) = Inr (Some (int ?i2))"
    using get_last[OF ne] cC lr by simp
  from run obtain st0 cnt0 where
    upd: "bbox_update E g (int C - 1) (C + 1) st (int ?i1) (int ?i2) (Some (int j)) None
            = Inr (st0, cnt0)"
    and rest: "inner_rows E g (int C - 1) (C + 1) rest (st0\<lparr>bbox_count := cnt0\<rparr>) = Inr st'"
    by (auto simp: g0 g1 g2 cell_val_def split: sum.splits)
  have r0: "norm_index (C + 1) (int j) = Inr j" using j by (simp add: norm_index_nat)
  have i: "?i1 < grid_count b C j" "?i2 < grid_count b C j"
    using j C by (simp_all add: grid_spec_def grid_count_def)
  have vals: "grid_spec b C j k =
                (if k = 0 then ?i1 else if k = C then ?i2 else grid_count b C j + (k - 1))"
    if "k \<le> C" for k
    using j that by (simp add: grid_spec_def grid_count_def)
  have F': "filled C j r k \<or> r = j" if "filled C (Suc j) r k" for r k
    using that by (auto simp: filled_def)
  have rl: "row_line b C j = (?i1, ?i2, [grid_count b C j..<grid_count b C j + (C - 1)])"
    using row_line_inner[of j C b] j by (simp add: grid_spec_def)
  from grid_inv_row[where F'="filled C (Suc j)", OF inv upd ex r0 i vals F', THEN conjunct2]
  have "grid_inv E g C (grid_spec b C) P Q (filled C (Suc j)) (grid_count b C j + (C - 1))
          (grid_writes C j @ map (Pair j) [0..<C + 1])
          (grid_lines b C j @ [(?i1, ?i2, [grid_count b C j..<grid_count b C j + (C - 1)])])
          (st0\<lparr>bbox_count := cnt0\<rparr>)" .
  then have "grid_inv E g C (grid_spec b C) P Q (filled C (Suc j)) (grid_count b C (Suc j))
          (grid_writes C (Suc j)) (grid_lines b C (Suc j)) (st0\<lparr>bbox_count := cnt0\<rparr>)"
    using grid_count_Suc[OF j(1), of b C] grid_writes_Suc[OF j(1), of C]
      grid_lines_Suc[OF j(1), of b C] rl
    by (simp add: row_cells_def)
  with rest show ?thesis by blast
qed

lemma inner_rows_inv:
  assumes ex: "npts_exact g" and C: "2 \<le> C" and b: "4 \<le> b"
  shows "1 \<le> j \<Longrightarrow> j \<le> C \<Longrightarrow>
         grid_inv E g C (grid_spec b C) P Q (filled C j) (grid_count b C j) (grid_writes C j)
           (grid_lines b C j) st \<Longrightarrow>
         inner_rows E g (int C - 1) (C + 1) [int j..int C - 1] st = Inr st' \<Longrightarrow>
         grid_inv E g C (grid_spec b C) P Q (filled C C) (grid_count b C C) (grid_writes C C)
           (grid_lines b C C) st'"
proof (induction "C - j" arbitrary: j st)
  case 0
  then have "j = C" by simp
  with 0 show ?case by simp
next
  case (Suc d)
  then have j: "1 \<le> j" "j < C" by simp_all
  have up: "[int j..int C - 1] = int j # [int (Suc j)..int C - 1]"
    using j upto_rec1[of "int j" "int C - 1"] by (simp add: add.commute)
  from inner_rows_step[OF ex C b j Suc.prems(3) Suc.prems(4)[unfolded up]]
  obtain st1 where
    inv1: "grid_inv E g C (grid_spec b C) P Q (filled C (Suc j)) (grid_count b C (Suc j))
             (grid_writes C (Suc j)) (grid_lines b C (Suc j)) st1"
    and run1: "inner_rows E g (int C - 1) (C + 1) [int (Suc j)..int C - 1] st1 = Inr st'"
    by blast
  have d: "d = C - Suc j" using Suc.hyps(2) by simp
  show ?case
    by (rule Suc.hyps(1)[OF d _ _ inv1 run1]) (use j in simp_all)
qed

lemma step_Inr:
  assumes "step m f = Inr st'"
  obtains st st1 cnt where "m = Inr st" "f st = Inr (st1, cnt)" "st' = st1\<lparr>bbox_count := cnt\<rparr>"
  using assms unfolding step_def rbind_eq_Inr rbind_pair_Inr by auto

lemma ensure_open_cases:
  "ensure_open lons lats = Inr (xs, ys) \<Longrightarrow>
   (xs = Arr lons \<and> ys = Arr lats) \<or> (\<exists>x y. xs = Scal x \<and> ys = Scal y)"
  by (auto simp: ensure_open_def rbind_eq_Inr split: if_splits)

lemma bbox_extend_Scal: "bbox_extend st (Scal x) ys = Inl TypeError"
  by (simp add: bbox_extend_def)

lemma validate_Inr:
  "validate lons lats = Inr u \<Longrightarrow> length lons = length lats \<and> 4 \<le> length lons \<and> length lons \<le> 5"
  by (auto simp: validate_def Let_def split: if_splits)

lemma norm_index_last: "0 < n \<Longrightarrow> norm_index n (- 1) = Inr (n - 1)"
  by (auto simp: norm_index_def nat_diff_distrib' intro: arg_cong[where f=nat])

lemma row_line_first: "2 \<le> C \<Longrightarrow> row_line b C 0 = (0, 1, [b..<b + (C - 1)])"
  using map_upt_shift[of C "grid_spec b C 0" b]
  by (simp add: row_line_def grid_spec_def)

lemma row_line_last:
  "2 \<le> C \<Longrightarrow> row_line b C C = (3, 2, [b + (C - 1)..<b + (C - 1) + (C - 1)])"
  using map_upt_shift[of C "grid_spec b C C" "b + (C - 1)"]
  by (simp add: row_line_def grid_spec_def)

lemma column_line_first:
  "2 \<le> C \<Longrightarrow>
   column_line b C 0 = (0, 3, [b + 2 * (C - 1)..<b + 2 * (C - 1) + (C - 1)])"
  using map_upt_shift[of C "\<lambda>r. grid_spec b C r 0" "b + 2 * (C - 1)"]
  by (simp add: column_line_def grid_spec_def)

lemma column_line_last:
  "2 \<le> C \<Longrightarrow>
   column_line b C C = (1, 2, [b + 3 * (C - 1)..<b + 3 * (C - 1) + (C - 1)])"
  using map_upt_shift[of C "\<lambda>r. grid_spec b C r C" "b + 3 * (C - 1)"]
  by (simp add: column_line_def grid_spec_def)

lemma shape_replicate: "shape n (replicate n (replicate n x))"
  by (simp add: shape_def)

lemma bbox_fill_steps:
  assumes run: "bbox_fill E lons lats ellps c = Inr st"
  obtains g s1 t2 n2 t3 n3 t4 n4 t5 n5 where
    "length lons = length lats" "4 \<le> length lons" "length lons \<le> 5"
    "pyproj_Geod E ellps = Inr g"
    "s1 = \<lparr>idx_map = replicate (nat (c + 1)) (replicate (nat (c + 1)) None), bbox_lons = lons,
            bbox_lats = lats, bbox_count = length lons, writes = []\<rparr>"
    "bbox_update E g (c - 1) (nat (c + 1)) s1 0 1 (Some 0) None = Inr (t2, n2)"
    "bbox_update E g (c - 1) (nat (c + 1)) (t2\<lparr>bbox_count := n2\<rparr>) 3 2 (Some (- 1)) None
       = Inr (t3, n3)"
    "bbox_update E g (c - 1) (nat (c + 1)) (t3\<lparr>bbox_count := n3\<rparr>) 0 3 None (Some 0)
       = Inr (t4, n4)"
    "bbox_update E g (c - 1) (nat (c + 1)) (t4\<lparr>bbox_count := n4\<rparr>) 1 2 None (Some (- 1))
       = Inr (t5, n5)"
    "inner_rows E g (c - 1) (nat (c + 1)) [1..c - 1] (t5\<lparr>bbox_count := n5\<rparr>) = Inr st"
proof -
  from run obtain u where va: "validate lons lats = Inr u"
    by (auto simp: bbox_fill_def rbind_eq_Inr)
  note v = validate_Inr[OF va]
  from run va obtain xs ys where eo: "ensure_open lons lats = Inr (xs, ys)"
    and run1: "(if c + 1 < 0 then Inl NegativeDimensions
       else
         let side = nat (c + 1);
             st0 = \<lparr>idx_map = replicate side (replicate side None), bbox_lons = [], bbox_lats = [],
                    bbox_count = 0, writes = []\<rparr>
         in rbind (pyproj_Geod E ellps) (\<lambda>g.
              let n = c - 1;
                  s1 = step (Inr st0) (\<lambda>st. bbox_extend st xs ys);
                  s2 = step s1 (\<lambda>st. bbox_update E g n side st 0 1 (Some 0) None);
                  s3 = step s2 (\<lambda>st. bbox_update E g n side st 3 2 (Some (- 1)) None);
                  s4 = step s3 (\<lambda>st. bbox_update E g n side st 0 3 None (Some 0));
                  s5 = step s4 (\<lambda>st. bbox_update E g n side st 1 2 None (Some (- 1)))
              in rbind s5 (inner_rows E g n side [1..c - 1]))) = Inr st"
    unfolding bbox_fill_def rbind_eq_Inr rbind_pair_Inr by auto
  let ?side = "nat (c + 1)"
  let ?st0 = "\<lparr>idx_map = replicate ?side (replicate ?side None), bbox_lons = [], bbox_lats = [],
                 bbox_count = 0, writes = []\<rparr>"
  let ?n = "c - 1"
  from run1 obtain g s5 where geod: "pyproj_Geod E ellps = Inr g" and
    s5: "step (step (step (step (step (Inr ?st0) (\<lambda>st. bbox_extend st xs ys))
           (\<lambda>st. bbox_update E g ?n ?side st 0 1 (Some 0) None))
           (\<lambda>st. bbox_update E g ?n ?side st 3 2 (Some (- 1)) None))
           (\<lambda>st. bbox_update E g ?n ?side st 0 3 None (Some 0)))
           (\<lambda>st. bbox_update E g ?n ?side st 1 2 None (Some (- 1))) = Inr s5"
    and loop: "inner_rows E g ?n ?side [1..c - 1] s5 = Inr st"
    by (auto simp: Let_def rbind_eq_Inr split: if_splits)
  from s5 obtain s4 t5 n5 where
    s4: "step (step (step (step (Inr ?st0) (\<lambda>st. bbox_extend st xs ys))
           (\<lambda>st. bbox_update E g ?n ?side st 0 1 (Some 0) None))
           (\<lambda>st. bbox_update E g ?n ?side st 3 2 (Some (- 1)) None))
           (\<lambda>st. bbox_update E g ?n ?side st 0 3 None (Some 0)) = Inr s4"
    and u5: "bbox_update E g ?n ?side s4 1 2 None (Some (- 1)) = Inr (t5, n5)"
    and e5: "s5 = t5\<lparr>bbox_count := n5\<rparr>"
    by (rule step_Inr)
  from s4 obtain s3 t4 n4 where
    s3: "step (step (step (Inr ?st0) (\<lambda>st. bbox_extend st xs ys))
           (\<lambda>st. bbox_update E g ?n ?side st 0 1 (Some 0) None))
           (\<lambda>st. bbox_update E g ?n ?side st 3 2 (Some (- 1)) None) = Inr s3"
    and u4: "bbox_update E g ?n ?side s3 0 3 None (Some 0) = Inr (t4, n4)"
    and e4: "s4 = t4\<lparr>bbox_count := n4\<rparr>"
    by (rule step_Inr)
  from s3 obtain s2 t3 n3 where
    s2: "step (step (Inr ?st0) (\<lambda>st. bbox_extend st xs ys))
           (\<lambda>st. bbox_update E g ?n ?side st 0 1 (Some 0) None) = Inr s2"
    and u3: "bbox_update E g ?n ?side s2 3 2 (Some (- 1)) None = Inr (t3, n3)"
    and e3: "s3 = t3\<lparr>bbox_count := n3\<rparr>"
    by (rule step_Inr)
  from s2 obtain s1 t2 n2 where
    s1: "step (Inr ?st0) (\<lambda>st. bbox_extend st xs ys) = Inr s1"
    and u2: "bbox_update E g ?n ?side s1 0 1 (Some 0) None = Inr (t2, n2)"
    and e2: "s2 = t2\<lparr>bbox_count := n2\<rparr>"
    by (rule step_Inr)
  from s1 obtain t1 n1 where
    u1: "bbox_extend ?st0 xs ys = Inr (t1, n1)" and e1: "s1 = t1\<lparr>bbox_count := n1\<rparr>"
    by (rule step_Inr) simp
  from ensure_open_cases[OF eo] u1 have xy: "xs = Arr lons" "ys = Arr lats"
    by (auto simp: bbox_extend_Scal)
  have s1_eq: "s1 = \<lparr>idx_map = replicate ?side (replicate ?side None), bbox_lons = lons,
                      bbox_lats = lats, bbox_count = length lons, writes = []\<rparr>"
    using u1 e1 xy by (auto simp: bbox_extend_Arr)
  have v1: "length lons = length lats" and v2: "4 \<le> length lons" and v3: "length lons \<le> 5"
    using v by simp_all
  show thesis
    by (rule that[OF v1 v2 v3 geod s1_eq u2 u3[unfolded e2] u4[unfolded e3] u5[unfolded e4]
        loop[unfolded e5]])
qed

lemma bbox_fill_inv:
  assumes run: "bbox_fill E lons lats ellps c = Inr st"
    and geod: "pyproj_Geod E ellps = Inr g"
    and ex: "npts_exact g"
  shows "2 \<le> c \<and> length lons = length lats \<and> 4 \<le> length lons \<and> length lons \<le> 5 \<and>
         grid_inv E g (nat c) (grid_spec (length lons) (nat c)) lons lats (filled (nat c) (nat c))
           (grid_count (length lons) (nat c) (nat c)) (grid_writes (nat c) (nat c))
           (grid_lines (length lons) (nat c) (nat c)) st"
proof -
  let ?b = "length lons"
  let ?side = "nat (c + 1)"
  from run obtain g' s1 t2 n2 t3 n3 t4 n4 t5 n5 where
    v: "length lons = length lats" "4 \<le> length lons" "length lons \<le> 5"
    and geod': "pyproj_Geod E ellps = Inr g'"
    and s1_eq: "s1 = \<lparr>idx_map = replicate ?side (replicate ?side None), bbox_lons = lons,
            bbox_lats = lats, bbox_count = length lons, writes = []\<rparr>"
    and u2: "bbox_update E g' (c - 1) ?side s1 0 1 (Some 0) None = Inr (t2, n2)"
    and u3: "bbox_update E g' (c - 1) ?side (t2\<lparr>bbox_count := n2\<rparr>) 3 2 (Some (- 1)) None
       = Inr (t3, n3)"
    and u4: "bbox_update E g' (c - 1) ?side (t3\<lparr>bbox_count := n3\<rparr>) 0 3 None (Some 0)
       = Inr (t4, n4)"
    and u5: "bbox_update E g' (c - 1) ?side (t4\<lparr>bbox_count := n4\<rparr>) 1 2 None (Some (- 1))
       = Inr (t5, n5)"
    and loop: "inner_rows E g' (c - 1) ?side [1..c - 1] (t5\<lparr>bbox_count := n5\<rparr>) = Inr st"
    by (rule bbox_fill_steps)
  have gg: "g' = g" using geod geod' by simp
  note u2 = u2[unfolded gg] and u3 = u3[unfolded gg] and u4 = u4[unfolded gg]
    and u5 = u5[unfolded gg] and loop = loop[unfolded gg]
  define s2 where "s2 = t2\<lparr>bbox_count := n2\<rparr>"
  define s3 where "s3 = t3\<lparr>bbox_count := n3\<rparr>"
  define s4 where "s4 = t4\<lparr>bbox_count := n4\<rparr>"
  define s5 where "s5 = t5\<lparr>bbox_count := n5\<rparr>"
  note e2 = s2_def and e3 = s3_def and e4 = s4_def and e5 = s5_def
  note u3 = u3[folded s2_def] and u4 = u4[folded s3_def] and u5 = u5[folded s4_def]
    and loop = loop[folded s5_def]
  from bbox_update_row[OF u2 ex] have c2: "2 \<le> c" by auto
  define C where "C = nat c"
  have C: "2 \<le> C" "int C - 1 = c - 1" "?side = C + 1" "int C = c"
    using c2 by (simp_all add: C_def)
  have b: "4 \<le> ?b" using v by simp
  have inv1: "grid_inv E g C (grid_spec ?b C) lons lats (\<lambda>r k. False) ?b [] [] s1"
    unfolding grid_inv_def s1_eq C(3)
    using v shape_replicate[of "C + 1" "None :: int option"] by (simp del: replicate_Suc)
  have u2': "bbox_update E g (int C - 1) (C + 1) s1 (int 0) (int 1) (Some 0) None = Inr (t2, n2)"
    using u2 C by simp
  have inv2: "grid_inv E g C (grid_spec ?b C) lons lats (\<lambda>r k. r = 0) (?b + (C - 1))
                ([] @ map (Pair 0) [0..<C + 1]) ([] @ [(0, 1, [?b..<?b + (C - 1)])]) s2"
    unfolding e2
    by (rule grid_inv_row[where F'="\<lambda>r k. r = 0", OF inv1 u2' ex, THEN conjunct2])
       (use b C in \<open>auto simp: norm_index_def grid_spec_def\<close>)
  have u3': "bbox_update E g (int C - 1) (C + 1) s2 (int 3) (int 2) (Some (- 1)) None
               = Inr (t3, n3)"
    using u3 C by simp
  have inv3: "grid_inv E g C (grid_spec ?b C) lons lats (\<lambda>r k. r = 0 \<or> r = C)
                (?b + (C - 1) + (C - 1))
                (([] @ map (Pair 0) [0..<C + 1]) @ map (Pair C) [0..<C + 1])
                (([] @ [(0, 1, [?b..<?b + (C - 1)])]) @
                 [(3, 2, [?b + (C - 1)..<?b + (C - 1) + (C - 1)])]) s3"
    unfolding e3
    by (rule grid_inv_row[where F'="\<lambda>r k. r = 0 \<or> r = C" and ?r0.0=C, OF inv2 u3' ex,
          THEN conjunct2])
       (use b C in \<open>auto simp: norm_index_last grid_spec_def\<close>)
  have u4': "bbox_update E g (int C - 1) (C + 1) s3 (int 0) (int 3) None (Some 0) = Inr (t4, n4)"
    using u4 C by simp
  have inv4: "grid_inv E g C (grid_spec ?b C) lons lats (\<lambda>r k. r = 0 \<or> r = C \<or> k = 0)
                (?b + (C - 1) + (C - 1) + (C - 1))
                ((([] @ map (Pair 0) [0..<C + 1]) @ map (Pair C) [0..<C + 1]) @
                 map (\<lambda>r. (r, 0)) [0..<C + 1])
                ((([] @ [(0, 1, [?b..<?b + (C - 1)])]) @
                 [(3, 2, [?b + (C - 1)..<?b + (C - 1) + (C - 1)])]) @
                 [(0, 3, [?b + (C - 1) + (C - 1)..<?b + (C - 1) + (C - 1) + (C - 1)])]) s4"
    unfolding e4
    by (rule grid_inv_column[where F'="\<lambda>r k. r = 0 \<or> r = C \<or> k = 0" and ?k0.0=0,
          OF inv3 u4' ex, THEN conjunct2])
       (use b C in \<open>auto simp: norm_index_def grid_spec_def\<close>)
  have u5': "bbox_update E g (int C - 1) (C + 1) s4 (int 1) (int 2) None (Some (- 1))
               = Inr (t5, n5)"
    using u5 C by simp
  have inv5: "grid_inv E g C (grid_spec ?b C) lons lats (\<lambda>r k. r = 0 \<or> r = C \<or> k = 0 \<or> k = C)
                (?b + (C - 1) + (C - 1) + (C - 1) + (C - 1))
                (((([] @ map (Pair 0) [0..<C + 1]) @ map (Pair C) [0..<C + 1]) @
                 map (\<lambda>r. (r, 0)) [0..<C + 1]) @ map (\<lambda>r. (r, C)) [0..<C + 1])
                (((([] @ [(0, 1, [?b..<?b + (C - 1)])]) @
                 [(3, 2, [?b + (C - 1)..<?b + (C - 1) + (C - 1)])]) @
                 [(0, 3, [?b + (C - 1) + (C - 1)..<?b + (C - 1) + (C - 1) + (C - 1)])]) @
                 [(1, 2, [?b + (C - 1) + (C - 1) + (C - 1)..<
                          ?b + (C - 1) + (C - 1) + (C - 1) + (C - 1)])]) s5"
    unfolding e5
    by (rule grid_inv_column[where F'="\<lambda>r k. r = 0 \<or> r = C \<or> k = 0 \<or> k = C" and ?k0.0=C,
          OF inv4 u5' ex, THEN conjunct2])
       (use b C in \<open>auto simp: norm_index_last grid_spec_def\<close>)
  have F1: "(\<lambda>r k. r = 0 \<or> r = C \<or> k = 0 \<or> k = C) = filled C 1"
    by (auto simp: filled_def fun_eq_iff)
  have c1: "?b + (C - 1) + (C - 1) + (C - 1) + (C - 1) = grid_count ?b C 1"
    by (simp add: grid_count_def)
  have w1: "(((([] @ map (Pair 0) [0..<C + 1]) @ map (Pair C) [0..<C + 1]) @
                 map (\<lambda>r. (r, 0)) [0..<C + 1]) @ map (\<lambda>r. (r, C)) [0..<C + 1])
            = grid_writes C 1"
    by (simp add: grid_writes_def row_cells_def column_cells_def)
  have l1: "(((([] @ [(0, 1, [?b..<?b + (C - 1)])]) @
                 [(3, 2, [?b + (C - 1)..<?b + (C - 1) + (C - 1)])]) @
                 [(0, 3, [?b + (C - 1) + (C - 1)..<?b + (C - 1) + (C - 1) + (C - 1)])]) @
                 [(1, 2, [?b + (C - 1) + (C - 1) + (C - 1)..<
                          ?b + (C - 1) + (C - 1) + (C - 1) + (C - 1)])])
            = grid_lines ?b C 1"
  proof -
    have a2: "?b + (C - 1) + (C - 1) = ?b + 2 * (C - 1)" by simp
    have a3: "?b + 2 * (C - 1) + (C - 1) = ?b + 3 * (C - 1)" by simp
    show ?thesis
      unfolding grid_lines_def row_line_first[OF C(1)] row_line_last[OF C(1)]
        column_line_first[OF C(1)] column_line_last[OF C(1)] a2 a3
      by simp
  qed
  have inv5': "grid_inv E g C (grid_spec ?b C) lons lats (filled C 1) (grid_count ?b C 1)
                 (grid_writes C 1) (grid_lines ?b C 1) s5"
  proof -
    have "grid_inv E g C (grid_spec ?b C) lons lats (filled C 1)
            (?b + (C - 1) + (C - 1) + (C - 1) + (C - 1)) (grid_writes C 1) (grid_lines ?b C 1) s5"
      using inv5 unfolding F1 w1 l1 .
    then show ?thesis unfolding c1 .
  qed
  have loop': "inner_rows E g (int C - 1) (C + 1) [int 1..int C - 1] s5 = Inr st"
    using loop C by simp
  have "grid_inv E g C (grid_spec ?b C) lons lats (filled C C) (grid_count ?b C C)
          (grid_writes C C) (grid_lines ?b C C) st"
    by (rule inner_rows_inv[OF ex C(1) b _ _ inv5' loop']) (use C in simp_all)
  then show ?thesis
    using c2 v unfolding C_def by simp
qed

lemma length_concat_grid:
  "length (concat (map (\<lambda>i. map (f i) [0..<C]) [0..<n])) = n * C"
  by (induction n) simp_all

lemma nth_concat_grid:
  "i < n \<Longrightarrow> j < C \<Longrightarrow> concat (map (\<lambda>i. map (f i) [0..<C]) [0..<n]) ! (i * C + j) = f i j"
proof (induction n)
  case 0
  then show ?case by simp
next
  case (Suc n)
  show ?case
  proof (cases "i < n")
    case True
    then have "Suc i \<le> n" by simp
    then have "Suc i * C \<le> n * C" by (rule mult_le_mono1)
    then have "i * C + j < n * C" using Suc.prems(2) by simp
    then show ?thesis using Suc.IH[OF True Suc.prems(2)]
      by (simp add: nth_append length_concat_grid)
  next
    case False
    then have "i = n" using Suc.prems(1) by simp
    then show ?thesis using Suc.prems(2)
      by (simp add: nth_append length_concat_grid)
  qed
qed

lemma set_concat_grid:
  "i < n \<Longrightarrow> j < C \<Longrightarrow> f i j \<in> set (concat (map (\<lambda>i. map (f i) [0..<C]) [0..<n]))"
  by (auto intro!: bexI[where x=i])

lemma take_as_map: "n \<le> length xs \<Longrightarrow> take n xs = map ((!) xs) [0..<n]"
  by (rule nth_equalityI) simp_all

lemma drop1_as_map: "drop 1 xs = map (\<lambda>j. xs ! (j + 1)) [0..<length xs - 1]"
  by (rule nth_equalityI) simp_all

lemma ravel_Inr:
  "ravel m = Inr f \<Longrightarrow> f = map the (concat m) \<and> (\<forall>v \<in> set (concat m). v \<noteq> None)"
  by (auto simp: ravel_def list_all_iff split: if_splits)

lemma slices_grid:
  assumes sh: "shape (C + 1) m"
  shows "map (take C) (take C m) = map (\<lambda>i. map (\<lambda>j. m ! i ! j) [0..<C]) [0..<C]"
    and "map (drop 1) (take C m) = map (\<lambda>i. map (\<lambda>j. m ! i ! (j + 1)) [0..<C]) [0..<C]"
    and "map (drop 1) (drop 1 m) = map (\<lambda>i. map (\<lambda>j. m ! (i + 1) ! (j + 1)) [0..<C]) [0..<C]"
    and "map (take C) (drop 1 m) = map (\<lambda>i. map (\<lambda>j. m ! (i + 1) ! j) [0..<C]) [0..<C]"
proof -
  have lm: "length m = C + 1" using sh by (rule shape_length)
  have lr: "length (m ! i) = C + 1" if "i \<le> C" for i
    using shape_nth[OF sh, of i] that by simp
  have t: "take C m = map ((!) m) [0..<C]" using lm by (simp add: take_as_map)
  have d: "drop 1 m = map (\<lambda>i. m ! (i + 1)) [0..<C]"
    using drop1_as_map[of m] lm by simp
  have tr: "take C (m ! i) = map (\<lambda>j. m ! i ! j) [0..<C]" if "i \<le> C" for i
    using lr[OF that] by (simp add: take_as_map)
  have dr: "drop 1 (m ! i) = map (\<lambda>j. m ! i ! (j + 1)) [0..<C]" if "i \<le> C" for i
    using drop1_as_map[of "m ! i"] lr[OF that] by simp
  show "map (take C) (take C m) = map (\<lambda>i. map (\<lambda>j. m ! i ! j) [0..<C]) [0..<C]"
    unfolding t by (simp add: tr)
  show "map (drop 1) (take C m) = map (\<lambda>i. map (\<lambda>j. m ! i ! (j + 1)) [0..<C]) [0..<C]"
    unfolding t by (simp add: dr[simplified])
  show "map (drop 1) (drop 1 m) = map (\<lambda>i. map (\<lambda>j. m ! (i + 1) ! (j + 1)) [0..<C]) [0..<C]"
    unfolding d by (simp add: dr[simplified])
  show "map (take C) (drop 1 m) = map (\<lambda>i. map (\<lambda>j. m ! (i + 1) ! j) [0..<C]) [0..<C]"
    unfolding d by (simp add: tr)
qed

lemma map_the_grid:
  "map the (concat (map (\<lambda>i. map (f i) [0..<C]) [0..<n]))
     = concat (map (\<lambda>i. map (\<lambda>j. the (f i j)) [0..<C]) [0..<n])"
  by (simp add: map_concat comp_def)

lemma make_faces_grid:
  assumes mf: "make_faces c m = Inr fs" and sh: "shape (nat c + 1) m" and c: "1 \<le> c"
  shows "fs = concat (map (\<lambda>i. map (\<lambda>j. quad m i j) [0..<nat c]) [0..<nat c]) \<and>
         (\<forall>i \<le> nat c. \<forall>j \<le> nat c. m ! i ! j \<noteq> None)"
proof -
  define C where "C = nat c"
  have C: "0 < C" "nat (c * c) = C * C" using c by (simp_all add: C_def nat_mult_distrib)
  have sl: "slice_to c xs = take C xs" for xs :: "'a list"
    using c by (simp add: slice_to_def C_def)
  note sg = slices_grid[OF sh[folded C_def]]
  from mf obtain f1 f2 f3 f4 where
    r1: "ravel (map (take C) (take C m)) = Inr f1"
    and r2: "ravel (map (drop 1) (take C m)) = Inr f2"
    and r3: "ravel (map (drop 1) (drop 1 m)) = Inr f3"
    and r4: "ravel (map (take C) (drop 1 m)) = Inr f4"
    and fs: "fs = map (\<lambda>k. [4, f1 ! k, f2 ! k, f3 ! k, f4 ! k]) [0..<C * C]"
    unfolding make_faces_def Let_def rbind_eq_Inr sl slice_from1_def C(2)[symmetric]
    by (auto split: if_splits)
  have f1: "f1 = concat (map (\<lambda>i. map (\<lambda>j. the (m ! i ! j)) [0..<C]) [0..<C])"
    using ravel_Inr[OF r1] unfolding sg by (simp only: map_the_grid)
  have f2: "f2 = concat (map (\<lambda>i. map (\<lambda>j. the (m ! i ! (j + 1))) [0..<C]) [0..<C])"
    using ravel_Inr[OF r2] unfolding sg by (simp only: map_the_grid)
  have f3: "f3 = concat (map (\<lambda>i. map (\<lambda>j. the (m ! (i + 1) ! (j + 1))) [0..<C]) [0..<C])"
    using ravel_Inr[OF r3] unfolding sg by (simp only: map_the_grid)
  have f4: "f4 = concat (map (\<lambda>i. map (\<lambda>j. the (m ! (i + 1) ! j)) [0..<C]) [0..<C])"
    using ravel_Inr[OF r4] unfolding sg by (simp only: map_the_grid)
  have "fs = concat (map (\<lambda>i. map (\<lambda>j. quad m i j) [0..<C]) [0..<C])"
  proof (rule nth_equalityI)
    show "length fs = length (concat (map (\<lambda>i. map (\<lambda>j. quad m i j) [0..<C]) [0..<C]))"
      unfolding fs length_concat_grid by simp
  next
    fix k assume "k < length fs"
    then have k: "k < C * C" by (simp add: fs)
    define i j where "i = k div C" and "j = k mod C"
    have ij: "i < C" "j < C" "k = i * C + j"
      using k C(1) by (simp_all add: i_def j_def less_mult_imp_div_less)
    have "fs ! k = [4, f1 ! k, f2 ! k, f3 ! k, f4 ! k]" using k by (simp add: fs)
    also have "\<dots> = quad m i j"
      unfolding f1 f2 f3 f4 ij(3) quad_def by (simp only: nth_concat_grid[OF ij(1,2)])
    also have "\<dots> = concat (map (\<lambda>i. map (\<lambda>j. quad m i j) [0..<C]) [0..<C]) ! k"
      unfolding ij(3) by (simp only: nth_concat_grid[OF ij(1,2)])
    finally show "fs ! k = concat (map (\<lambda>i. map (\<lambda>j. quad m i j) [0..<C]) [0..<C]) ! k" .
  qed
  moreover have "m ! i ! j \<noteq> None" if le: "i \<le> C" "j \<le> C" for i j
  proof -
    have a1: "m ! i ! j \<noteq> None" if "i < C" "j < C" for i j
      using ravel_Inr[OF r1] set_concat_grid[OF that, of "\<lambda>i j. m ! i ! j"] unfolding sg by blast
    have a2: "m ! i ! (j + 1) \<noteq> None" if "i < C" "j < C" for i j
      using ravel_Inr[OF r2] set_concat_grid[OF that, of "\<lambda>i j. m ! i ! (j + 1)"]
      unfolding sg by blast
    have a3: "m ! (i + 1) ! (j + 1) \<noteq> None" if "i < C" "j < C" for i j
      using ravel_Inr[OF r3] set_concat_grid[OF that, of "\<lambda>i j. m ! (i + 1) ! (j + 1)"]
      unfolding sg by blast
    have a4: "m ! (i + 1) ! j \<noteq> None" if "i < C" "j < C" for i j
      using ravel_Inr[OF r4] set_concat_grid[OF that, of "\<lambda>i j. m ! (i + 1) ! j"]
      unfolding sg by blast
    consider "i < C" "j < C" | "i < C" "j = C" | "i = C" "j = C" | "i = C" "j < C"
      using le by fastforce
    then show ?thesis
    proof cases
      case 1 then show ?thesis by (rule a1)
    next
      case 2 then show ?thesis using a2[of i "C - 1"] C(1) by simp
    next
      case 3 then show ?thesis using a3[of "C - 1" "C - 1"] C(1) by simp
    next
      case 4 then show ?thesis using a4[of "C - 1" j] C(1) by simp
    qed
  qed
  ultimately show ?thesis unfolding C_def by blast
qed

lemma bbox_update_shape:
  assumes upd: "bbox_update E g n side st idx1 idx2 row column = Inr (st', cnt)"
    and sh: "shape side (idx_map st)"
  shows "shape side (idx_map st') \<and> side = nat n + 2"
proof -
  have rc: "row \<noteq> None \<or> column \<noteq> None"
    using upd by (auto simp: bbox_update_def split: if_splits)
  from upd[unfolded bbox_update_unfold[OF rc] rbind_pair_Inr]
  obtain glons glats m cells where
    as: "assign side (idx_map st) row column (edge_vals n (bbox_count st) idx1 idx2)
           = Inr (m, cells)"
    and ex: "bbox_extend (st\<lparr>idx_map := m, writes := writes st @ cells\<rparr>) (Arr glons) (Arr glats)
           = Inr (st', cnt)"
    by blast
  have m': "idx_map st' = m" using ex by (auto simp: bbox_extend_Arr)
  have l2: "2 \<le> length (edge_vals n (bbox_count st) idx1 idx2)"
    by (simp add: length_edge_vals)
  show ?thesis
  proof (cases row)
    case None
    then obtain k where k: "column = Some k" using rc by auto
    from assign_column[OF as[unfolded None k] l2] sh show ?thesis
      unfolding m' by (auto simp: length_edge_vals intro: shape_set_column)
  next
    case (Some r)
    show ?thesis
    proof (cases column)
      case None
      from assign_row[OF as[unfolded Some None] l2] sh show ?thesis
        unfolding m' by (auto simp: length_edge_vals intro: shape_set_row)
    next
      case (Some k)
      with as \<open>row = Some r\<close> show ?thesis by (simp add: assign_def)
    qed
  qed
qed

lemma inner_rows_shape:
  "inner_rows E g n side rows st = Inr st' \<Longrightarrow> shape side (idx_map st) \<Longrightarrow>
   shape side (idx_map st')"
proof (induction rows arbitrary: st)
  case Nil
  then show ?case by simp
next
  case (Cons row_idx rest)
  from Cons.prems(1) obtain a b st1 cnt1 where
    upd: "bbox_update E g n side st a b (Some row_idx) None = Inr (st1, cnt1)"
    and rest: "inner_rows E g n side rest (st1\<lparr>bbox_count := cnt1\<rparr>) = Inr st'"
    by (auto simp: rbind_eq_Inr split: sum.splits)
  from bbox_update_shape[OF upd Cons.prems(2), THEN conjunct1]
  have "shape side (idx_map (st1\<lparr>bbox_count := cnt1\<rparr>))" by simp
  from Cons.IH[OF rest this] show ?case .
qed

lemma bbox_fill_shape:
  assumes run: "bbox_fill E lons lats ellps c = Inr st"
  shows "1 \<le> c \<and> shape (nat c + 1) (idx_map st)"
proof -
  let ?side = "nat (c + 1)"
  from run obtain g s1 t2 n2 t3 n3 t4 n4 t5 n5 where
    s1_eq: "s1 = \<lparr>idx_map = replicate ?side (replicate ?side None), bbox_lons = lons,
            bbox_lats = lats, bbox_count = length lons, writes = []\<rparr>"
    and u2: "bbox_update E g (c - 1) ?side s1 0 1 (Some 0) None = Inr (t2, n2)"
    and u3: "bbox_update E g (c - 1) ?side (t2\<lparr>bbox_count := n2\<rparr>) 3 2 (Some (- 1)) None
       = Inr (t3, n3)"
    and u4: "bbox_update E g (c - 1) ?side (t3\<lparr>bbox_count := n3\<rparr>) 0 3 None (Some 0)
       = Inr (t4, n4)"
    and u5: "bbox_update E g (c - 1) ?side (t4\<lparr>bbox_count := n4\<rparr>) 1 2 None (Some (- 1))
       = Inr (t5, n5)"
    and loop: "inner_rows E g (c - 1) ?side [1..c - 1] (t5\<lparr>bbox_count := n5\<rparr>) = Inr st"
    by (rule bbox_fill_steps)
  have h1: "shape ?side (idx_map s1)" unfolding s1_eq by (simp add: shape_replicate)
  note a2 = bbox_update_shape[OF u2 h1, THEN conjunct2]
  from bbox_update_shape[OF u2 h1, THEN conjunct1]
  have h2: "shape ?side (idx_map (t2\<lparr>bbox_count := n2\<rparr>))" by simp
  from bbox_update_shape[OF u3 h2, THEN conjunct1]
  have h3: "shape ?side (idx_map (t3\<lparr>bbox_count := n3\<rparr>))" by simp
  from bbox_update_shape[OF u4 h3, THEN conjunct1]
  have h4: "shape ?side (idx_map (t4\<lparr>bbox_count := n4\<rparr>))" by simp
  from bbox_update_shape[OF u5 h4, THEN conjunct1]
  have h5: "shape ?side (idx_map (t5\<lparr>bbox_count := n5\<rparr>))" by simp
  have h: "shape ?side (idx_map st)" by (rule inner_rows_shape[OF loop h5])
  from a2 have "nat (c + 1) = nat (c - 1) + 2" by simp
  then have c: "1 \<le> c" by linarith
  then have "nat (c + 1) = nat c + 1" by simp
  with h c show ?thesis by simp
qed

lemma bbox_mesh:
  assumes "bbox E longitudes latitudes ellps radius c triangulate = Inr mesh"
  shows "\<exists>st pdata. bbox_fill E longitudes latitudes ellps c = Inr st \<and>
           (\<forall>i \<le> nat c. \<forall>j \<le> nat c. idx_map st ! i ! j \<noteq> None) \<and>
           faces pdata =
             concat (map (\<lambda>i. map (\<lambda>j. quad (idx_map st) i j) [0..<nat c]) [0..<nat c]) \<and>
           points pdata = to_xyz E (bbox_lons st) (bbox_lats st) radius \<and>
           mesh = (if triangulate then pv_triangulate E pdata else pdata)"
proof -
  from assms obtain st fs where
    run: "bbox_fill E longitudes latitudes ellps c = Inr st"
    and mf: "make_faces c (idx_map st) = Inr fs"
    and mesh: "mesh = (if triangulate
                       then pv_triangulate E
                              \<lparr>points = to_xyz E (bbox_lons st) (bbox_lats st) radius, faces = fs\<rparr>
                       else \<lparr>points = to_xyz E (bbox_lons st) (bbox_lats st) radius, faces = fs\<rparr>)"
    by (auto simp: bbox_def rbind_eq_Inr Let_def)
  from bbox_fill_shape[OF run] have c: "1 \<le> c" and sh: "shape (nat c + 1) (idx_map st)"
    by simp_all
  define pdata :: "'a polydata"
    where "pdata = \<lparr>points = to_xyz E (bbox_lons st) (bbox_lats st) radius, faces = fs\<rparr>"
  have p: "points pdata = to_xyz E (bbox_lons st) (bbox_lats st) radius" and f: "faces pdata = fs"
    by (simp_all add: pdata_def)
  have m: "mesh = (if triangulate then pv_triangulate E pdata else pdata)"
    unfolding pdata_def by (rule mesh)
  from make_faces_grid[OF mf sh c]
  have g: "(\<forall>i \<le> nat c. \<forall>j \<le> nat c. idx_map st ! i ! j \<noteq> None) \<and>
           faces pdata =
             concat (map (\<lambda>i. map (\<lambda>j. quad (idx_map st) i j) [0..<nat c]) [0..<nat c])"
    unfolding f by blast
  from run g p m show ?thesis by blast
qed

text \<open>
  C6. Every successful \<^verbatim>\<open>bbox\<close> call with subdivision factor \<open>c\<close> builds the faces \<open>(i, j)\<close>
  for \<open>i, j\<close> in \<open>[0, c)\<close>, in row-major order and no others, and face \<open>(i, j)\<close> is the row
  \<open>4, grid(i, j), grid(i, j + 1), grid(i + 1, j + 1), grid(i + 1, j)\<close> of the filled index grid
  (\<open>quad\<close>), every cell of which has been assigned. The mesh returned is the one with these
  faces, handed to \<^verbatim>\<open>triangulate\<close> of the mesh library when triangulation is asked for.
\<close>

theorem bbox_faces:
  assumes "bbox E longitudes latitudes ellps radius c triangulate = Inr mesh"
  shows "\<exists>st pdata. bbox_fill E longitudes latitudes ellps c = Inr st \<and>
           (\<forall>i \<le> nat c. \<forall>j \<le> nat c. idx_map st ! i ! j \<noteq> None) \<and>
           faces pdata =
             concat (map (\<lambda>i. map (\<lambda>j. quad (idx_map st) i j) [0..<nat c]) [0..<nat c]) \<and>
           mesh = (if triangulate then pv_triangulate E pdata else pdata)"
proof -
  from bbox_mesh[OF assms] obtain st pdata where
    "bbox_fill E longitudes latitudes ellps c = Inr st"
    "\<forall>i \<le> nat c. \<forall>j \<le> nat c. idx_map st ! i ! j \<noteq> None"
    "faces pdata =
       concat (map (\<lambda>i. map (\<lambda>j. quad (idx_map st) i j) [0..<nat c]) [0..<nat c])"
    "mesh = (if triangulate then pv_triangulate E pdata else pdata)"
    by blast
  then show ?thesis by blast
qed

theorem bbox_faces_witness:
  "bbox flat_ext [0, 10, 10, 0] [0, 0, 10, 10] ''WGS84'' 1 2 False
     = Inr \<lparr>points = [(0, 0, 1), (10, 0, 1), (10, 10, 1), (0, 10, 1), (5, 0, 1),
                       (5, 10, 1), (0, 5, 1), (10, 5, 1), (5, 5, 1)],
            faces = [[4, 0, 4, 8, 6], [4, 4, 1, 7, 8], [4, 6, 8, 5, 3], [4, 8, 7, 2, 5]]\<rparr> \<and>
   (\<exists>st. bbox_fill flat_ext [0, 10, 10, 0] [0, 0, 10, 10] ''WGS84'' 2 = Inr st \<and>
      idx_map st = [[Some 0, Some 4, Some 1], [Some 6, Some 8, Some 7], [Some 3, Some 5, Some 2]] \<and>
      [[4, 0, 4, 8, 6], [4, 4, 1, 7, 8], [4, 6, 8, 5, 3], [4, 8, 7, 2, 5]] =
        concat (map (\<lambda>i. map (\<lambda>j. quad (idx_map st) i j) [0..<nat 2]) [0..<nat 2]))"
proof -
  have h: "bbox flat_ext [0, 10, 10, 0] [0, 0, 10, 10] ''WGS84'' 1 2 False
     = Inr \<lparr>points = [(0, 0, 1), (10, 0, 1), (10, 10, 1), (0, 10, 1), (5, 0, 1),
                       (5, 10, 1), (0, 5, 1), (10, 5, 1), (5, 5, 1)],
            faces = [[4, 0, 4, 8, 6], [4, 4, 1, 7, 8], [4, 6, 8, 5, 3], [4, 8, 7, 2, 5]]\<rparr>"
    by code_simp
  have f: "bbox_fill flat_ext [0, 10, 10, 0] [0, 0, 10, 10] ''WGS84'' 2
     = Inr \<lparr>idx_map = [[Some 0, Some 4, Some 1], [Some 6, Some 8, Some 7], [Some 3, Some 5, Some 2]],
            bbox_lons = [0, 10, 10, 0, 5, 5, 0, 10, 5],
            bbox_lats = [0, 0, 10, 10, 0, 10, 5, 5, 5],
            bbox_count = 9,
            writes = [(0, 0), (0, 1), (0, 2), (2, 0), (2, 1), (2, 2), (0, 0), (1, 0), (2, 0),
                      (0, 2), (1, 2), (2, 2), (1, 0), (1, 1), (1, 2)]\<rparr>"
    by code_simp
  from bbox_faces [OF h] obtain st pdata where
    st: "bbox_fill flat_ext [0, 10, 10, 0] [0, 0, 10, 10] ''WGS84'' 2 = Inr st"
    and fs: "faces pdata =
       concat (map (\<lambda>i. map (\<lambda>j. quad (idx_map st) i j) [0..<nat 2]) [0..<nat 2])"
    and m: "\<lparr>points = [(0, 0, 1), (10, 0, 1), (10, 10, 1), (0, 10, 1), (5, 0, 1),
                        (5, 10, 1), (0, 5, 1), (10, 5, 1), (5 :: real, 5 :: real, 1 :: real)],
             faces = [[4, 0, 4, 8, 6], [4, 4, 1, 7, 8], [4, 6, 8, 5, 3], [4, 8, 7, 2, 5]]\<rparr>
           = (if False then pv_triangulate flat_ext pdata else pdata)"
    by blast
  from m have "faces pdata = [[4, 0, 4, 8, 6], [4, 4, 1, 7, 8], [4, 6, 8, 5, 3], [4, 8, 7, 2, 5]]"
    by auto
  with fs st f h show ?thesis by auto
qed









lemma grid_invD:
  assumes "grid_inv E g C G P Q F cnt W L st"
  shows "shape (C + 1) (idx_map st)"
    and "length (bbox_lons st) = cnt" and "length (bbox_lats st) = cnt"
    and "bbox_count st = cnt" and "writes st = W"
    and "\<exists>zs. bbox_lons st = P @ zs" and "\<exists>ws. bbox_lats st = Q @ ws"
    and "\<forall>r k. r \<le> C \<longrightarrow> k \<le> C \<longrightarrow> F r k \<longrightarrow> idx_map st ! r ! k = Some (int (G r k))"
    and "\<forall>(i1, i2, vs) \<in> set L.
           i1 < cnt \<and> i2 < cnt \<and> (\<forall>v \<in> set vs. v < cnt) \<and> interp E g (int C - 1) st i1 i2 vs"
proof -
  note d = assms[unfolded grid_inv_def]
  note d2 = d[THEN conjunct2]
  note d3 = d2[THEN conjunct2]
  note d4 = d3[THEN conjunct2]
  note d5 = d4[THEN conjunct2]
  note d6 = d5[THEN conjunct2]
  note d7 = d6[THEN conjunct2]
  note d8 = d7[THEN conjunct2]
  show "shape (C + 1) (idx_map st)" by (rule d[THEN conjunct1])
  show "length (bbox_lons st) = cnt" by (rule d2[THEN conjunct1])
  show "length (bbox_lats st) = cnt" by (rule d3[THEN conjunct1])
  show "bbox_count st = cnt" by (rule d4[THEN conjunct1])
  show "writes st = W" by (rule d5[THEN conjunct1])
  show "\<exists>zs. bbox_lons st = P @ zs" by (rule d6[THEN conjunct1])
  show "\<exists>ws. bbox_lats st = Q @ ws" by (rule d7[THEN conjunct1])
  show "\<forall>r k. r \<le> C \<longrightarrow> k \<le> C \<longrightarrow> F r k \<longrightarrow> idx_map st ! r ! k = Some (int (G r k))"
    by (rule d8[THEN conjunct1])
  show "\<forall>(i1, i2, vs) \<in> set L.
           i1 < cnt \<and> i2 < cnt \<and> (\<forall>v \<in> set vs. v < cnt) \<and> interp E g (int C - 1) st i1 i2 vs"
    by (rule d8[THEN conjunct2])
qed

lemma bbox_fill_grid:
  assumes run: "bbox_fill E lons lats ellps c = Inr st"
    and geod: "pyproj_Geod E ellps = Inr g"
    and ex: "npts_exact g"
  shows "2 \<le> c" "length lons = length lats" "4 \<le> length lons" "length lons \<le> 5"
    and "\<And>r k. r \<le> nat c \<Longrightarrow> k \<le> nat c \<Longrightarrow>
           idx_map st ! r ! k = Some (int (grid_spec (length lons) (nat c) r k))"
    and "length (bbox_lons st) = grid_count (length lons) (nat c) (nat c)"
    and "length (bbox_lats st) = grid_count (length lons) (nat c) (nat c)"
    and "writes st = grid_writes (nat c) (nat c)"
    and "\<exists>zs. bbox_lons st = lons @ zs" and "\<exists>ws. bbox_lats st = lats @ ws"
    and "\<And>i1 i2 vs. (i1, i2, vs) \<in> set (grid_lines (length lons) (nat c) (nat c)) \<Longrightarrow>
           interp E g (c - 1) st i1 i2 vs"
proof -
  note inv = bbox_fill_inv[OF run geod ex]
  show c: "2 \<le> c" and "length lons = length lats" "4 \<le> length lons" "length lons \<le> 5"
    using inv by simp_all
  have gi: "grid_inv E g (nat c) (grid_spec (length lons) (nat c)) lons lats (filled (nat c) (nat c))
           (grid_count (length lons) (nat c) (nat c)) (grid_writes (nat c) (nat c))
           (grid_lines (length lons) (nat c) (nat c)) st"
    by (rule inv[THEN conjunct2, THEN conjunct2, THEN conjunct2, THEN conjunct2])
  note d = grid_invD[OF gi]
  show "idx_map st ! r ! k = Some (int (grid_spec (length lons) (nat c) r k))"
    if "r \<le> nat c" "k \<le> nat c" for r k
  proof -
    have "filled (nat c) (nat c) r k" using that by (auto simp: filled_def)
    with d(8) that show ?thesis by simp
  qed
  show "length (bbox_lons st) = grid_count (length lons) (nat c) (nat c)" by (rule d(2))
  show "length (bbox_lats st) = grid_count (length lons) (nat c) (nat c)" by (rule d(3))
  show "writes st = grid_writes (nat c) (nat c)" by (rule d(5))
  show "\<exists>zs. bbox_lons st = lons @ zs" by (rule d(6))
  show "\<exists>ws. bbox_lats st = lats @ ws" by (rule d(7))
  have ic: "int (nat c) - 1 = c - 1" using c by simp
  show "interp E g (c - 1) st i1 i2 vs"
    if "(i1, i2, vs) \<in> set (grid_lines (length lons) (nat c) (nat c))" for i1 i2 vs
    using d(9)[unfolded ic] that by fast
qed






lemma count_row_cells:
  "count_list (row_cells C r) (r', k) = (if r' = r \<and> k \<le> C then 1 else 0)"
proof -
  have "count_list (map (Pair r) [0..<n]) (r', k) = (if r' = r \<and> k < n then 1 else 0)" for n
    by (induction n) auto
  from this[of "C + 1"] show ?thesis by (simp add: row_cells_def less_Suc_eq_le)
qed

lemma count_column_cells:
  "count_list (column_cells C k) (r, k') = (if k' = k \<and> r \<le> C then 1 else 0)"
proof -
  have "count_list (map (\<lambda>r. (r, k)) [0..<n]) (r, k') = (if k' = k \<and> r < n then 1 else 0)" for n
    by (induction n) auto
  from this[of "C + 1"] show ?thesis by (simp add: column_cells_def less_Suc_eq_le)
qed

lemma count_inner_rows:
  "count_list (concat (map (row_cells C) [1..<j])) (r, k)
     = (if 1 \<le> r \<and> r < j \<and> k \<le> C then 1 else 0)"
  by (induction j) (auto simp: count_row_cells)

lemma count_grid_writes:
  assumes "2 \<le> C" "r \<le> C" "k \<le> C"
  shows "count_list (grid_writes C C) (r, k) = (if k = 0 \<or> k = C then 2 else 1)"
  using assms count_inner_rows[of C C r k]
  by (auto simp: grid_writes_def count_row_cells count_column_cells)

lemma take_prefix: "\<exists>zs. xs = ys @ zs \<Longrightarrow> n \<le> length ys \<Longrightarrow> take n xs = take n ys"
  by auto

text \<open>
  C8, as the code has it. With a geodesic reference that returns the number of points it is
  asked for, a successful grid construction assigns the cells in this order: row 0, row \<open>c\<close>,
  column 0, column \<open>c\<close> (the four borders, drawn between the corner vertices 0-1, 3-2, 0-3 and
  1-2), then the rows 1 to \<open>c - 1\<close>, each one whole. So every cell is assigned before the faces
  are built: once, except the cells of the first and of the last column, which are assigned
  twice (a corner by its border row and its border column, an end of an interior row by the
  border column and by the row). After filling, every cell holds the vertex index \<open>grid_spec\<close>;
  the new vertices of each update are the geodesic points between the vertices of the two end
  cells of its row or column (for an interior row: of its first and last column, assigned
  before by the border columns); and the corner cells \<open>(0, 0)\<close>, \<open>(0, c)\<close>, \<open>(c, 0)\<close>, \<open>(c, c)\<close>
  hold the indices 0, 1, 3, 2 of the first 4 input points, which open the vertex buffer.
\<close>

theorem bbox_grid_filled:
  assumes run: "bbox_fill E longitudes latitudes ellps c = Inr st"
    and geod: "pyproj_Geod E ellps = Inr g"
    and ex: "npts_exact g"
  shows "writes st = grid_writes (nat c) (nat c) \<and>
         (\<forall>r \<le> nat c. \<forall>k \<le> nat c.
            idx_map st ! r ! k = Some (int (grid_spec (length longitudes) (nat c) r k)) \<and>
            count_list (writes st) (r, k) = (if k = 0 \<or> k = nat c then 2 else 1)) \<and>
         (\<forall>(i1, i2, vs) \<in> set (grid_lines (length longitudes) (nat c) (nat c)).
            interp E g (c - 1) st i1 i2 vs) \<and>
         idx_map st ! 0 ! 0 = Some 0 \<and> idx_map st ! 0 ! nat c = Some 1 \<and>
         idx_map st ! nat c ! 0 = Some 3 \<and> idx_map st ! nat c ! nat c = Some 2 \<and>
         take 4 (bbox_lons st) = take 4 longitudes \<and> take 4 (bbox_lats st) = take 4 latitudes"
proof -
  define C where "C = nat c"
  define b where "b = length longitudes"
  note g = bbox_fill_grid[OF run geod ex, folded C_def b_def]
  have C: "2 \<le> C" using g(1) by (simp add: C_def)
  have w: "writes st = grid_writes C C" by (rule g(8))
  have cells: "\<forall>r \<le> C. \<forall>k \<le> C.
            idx_map st ! r ! k = Some (int (grid_spec b C r k)) \<and>
            count_list (writes st) (r, k) = (if k = 0 \<or> k = C then 2 else 1)"
    unfolding w using g(5) count_grid_writes[OF C] by blast
  have lines: "\<forall>(i1, i2, vs) \<in> set (grid_lines b C C). interp E g (c - 1) st i1 i2 vs"
    using g(11) by blast
  have c00: "idx_map st ! 0 ! 0 = Some 0"
    using g(5)[of 0 0] by (simp add: grid_spec_def)
  have c0C: "idx_map st ! 0 ! C = Some 1"
    using g(5)[of 0 C] C by (simp add: grid_spec_def)
  have cC0: "idx_map st ! C ! 0 = Some 3"
    using g(5)[of C 0] C by (simp add: grid_spec_def)
  have cCC: "idx_map st ! C ! C = Some 2"
    using g(5)[of C C] C by (simp add: grid_spec_def)
  have lo: "take 4 (bbox_lons st) = take 4 longitudes"
    using g(9) g(3) unfolding b_def by (rule take_prefix)
  have la: "take 4 (bbox_lats st) = take 4 latitudes"
    using g(10) g(3) g(2) unfolding b_def by (auto intro: take_prefix)
  from w cells lines c00 c0C cC0 cCC lo la show ?thesis
    unfolding C_def b_def by blast
qed

text \<open>
  For the corners (0,0), (10,0), (10,10), (0,10) and \<open>c = 2\<close> the cell \<open>(0, 0)\<close> is assigned
  twice, by the update of row 0 and by the update of column 0.
\<close>

theorem bbox_grid_counterexample:
  "bbox_fill flat_ext [0, 10, 10, 0] [0, 0, 10, 10] ''WGS84'' 2
     = Inr \<lparr>idx_map = [[Some 0, Some 4, Some 1], [Some 6, Some 8, Some 7], [Some 3, Some 5, Some 2]],
            bbox_lons = [0, 10, 10, 0, 5, 5, 0, 10, 5],
            bbox_lats = [0, 0, 10, 10, 0, 10, 5, 5, 5],
            bbox_count = 9,
            writes = [(0, 0), (0, 1), (0, 2), (2, 0), (2, 1), (2, 2), (0, 0), (1, 0), (2, 0),
                      (0, 2), (1, 2), (2, 2), (1, 0), (1, 1), (1, 2)]\<rparr> \<and>
   count_list [(0, 0), (0, 1), (0, 2), (2, 0), (2, 1), (2, 2), (0, 0), (1, 0), (2, 0),
               (0, 2), (1, 2), (2, 2), (1, 0), (1, 1), (1 :: nat, 2 :: nat)] (0, 0) \<noteq> 1"
  by code_simp

theorem bbox_grid_filled_witness:
  "bbox_fill flat_ext [0, 10, 10, 0] [0, 0, 10, 10] ''WGS84'' 2
     = Inr \<lparr>idx_map = [[Some 0, Some 4, Some 1], [Some 6, Some 8, Some 7], [Some 3, Some 5, Some 2]],
            bbox_lons = [0, 10, 10, 0, 5, 5, 0, 10, 5],
            bbox_lats = [0, 0, 10, 10, 0, 10, 5, 5, 5],
            bbox_count = 9,
            writes = [(0, 0), (0, 1), (0, 2), (2, 0), (2, 1), (2, 2), (0, 0), (1, 0), (2, 0),
                      (0, 2), (1, 2), (2, 2), (1, 0), (1, 1), (1, 2)]\<rparr> \<and>
   [(0, 0), (0, 1), (0, 2), (2, 0), (2, 1), (2, 2), (0, 0), (1, 0), (2, 0),
    (0, 2), (1, 2), (2, 2), (1, 0), (1, 1), (1, 2)] = grid_writes (nat 2) (nat 2) \<and>
   [[Some 0, Some 4, Some 1], [Some 6, Some 8, Some 7], [Some 3, Some 5, Some 2]]
     = map (\<lambda>r. map (\<lambda>k. Some (int (grid_spec 4 2 r k))) [0, 1, 2]) [0, 1, 2] \<and>
   grid_lines 4 2 2 = [(0, 1, [4]), (3, 2, [5]), (0, 3, [6]), (1, 2, [7]), (6, 7, [8])]"
proof -
  let ?S = "\<lparr>idx_map = [[Some 0, Some 4, Some 1], [Some 6, Some 8, Some 7],
                        [Some 3, Some 5, Some 2]],
             bbox_lons = [0, 10, 10, 0, 5, 5, 0, 10, 5 :: real],
             bbox_lats = [0, 0, 10, 10, 0, 10, 5, 5, 5 :: real],
             bbox_count = 9,
             writes = [(0, 0), (0, 1), (0, 2), (2, 0), (2, 1), (2, 2), (0, 0), (1, 0), (2, 0),
                       (0, 2), (1, 2), (2, 2), (1, 0), (1, 1), (1, 2)]\<rparr>"
  have h1: "bbox_fill flat_ext [0, 10, 10, 0] [0, 0, 10, 10] ''WGS84'' 2 = Inr ?S"
    by code_simp
  have h2: "pyproj_Geod flat_ext ''WGS84'' = Inr (Geod flat_npts)"
    by (simp add: flat_ext_def)
  note t = bbox_grid_filled [OF h1 h2 npts_exact_flat]
  have w: "writes ?S = grid_writes (nat 2) (nat 2)"
    by (rule t[THEN conjunct1])
  have m: "[[Some 0, Some 4, Some 1], [Some 6, Some 8, Some 7], [Some 3, Some 5, Some 2]]
     = map (\<lambda>r. map (\<lambda>k. Some (int (grid_spec 4 2 r k))) [0, 1, 2]) [0, 1, 2]"
    by code_simp
  have l: "grid_lines 4 2 2 = [(0, 1, [4]), (3, 2, [5]), (0, 3, [6]), (1, 2, [7]), (6, 7, [8])]"
    by code_simp
  from h1 w m l show ?thesis by simp
qed

end
